theory Spec2Isabelle
  imports Main "HOL-Library.Word" "HOL-Library.Signed_Division"
begin

section \<open>Machine integers of the playback engine\<close>

text \<open>
  Frame numbers are \<^verbatim>\<open>s32\<close> in the source. They are modelled as 32-bit words; \<open>sint\<close> reads
  a word as the signed value the program compares. C++ leaves a signed operation whose
  result is not an \<^verbatim>\<open>int\<close> undefined: in the frame arithmetic of \<open>emod\<close> and of the nearest
  interval frame such an operation has the result \<open>None\<close>. In the threads, whose steps
  go on whatever the frame numbers are, \<open>+\<close> and \<open>-\<close> on words are the two's-complement
  operations of the hardware (the jump arithmetic of the seek thread is unsigned in the
  source, and wraps around by definition).
  Byte buffers (\<^verbatim>\<open>std::vector<u8>\<close>, and the \<^verbatim>\<open>std::string\<close> holding a diff) are lists of
  8-bit words.
\<close>

type_synonym s32 = "32 word"
type_synonym u8 = "8 word"
type_synonym bytes = "u8 list"

definition INT_MAX :: s32 where
  "INT_MAX = 2147483647"

definition INT_MIN :: s32 where
  "INT_MIN = - 2147483648"

text \<open>\<^verbatim>\<open>#define FRAME_INTERVAL 900\<close>\<close>

definition FRAME_INTERVAL :: s32 where
  "FRAME_INTERVAL = 900"

text \<open>
  The C++ operator \<^verbatim>\<open>%\<close> on \<^verbatim>\<open>int\<close>: the remainder of the division that truncates towards
  zero, so its sign follows the dividend (\<open>smod\<close> on \<open>int\<close>). It has no defined result
  for a zero divisor, nor for \<^verbatim>\<open>INT_MIN % -1\<close>, whose quotient overflows (the compiled code
  traps there).
\<close>

definition s32_rem :: "s32 \<Rightarrow> s32 \<Rightarrow> s32 option" where
  "s32_rem a b =
     (if b = 0 \<or> (a = INT_MIN \<and> b = - 1) then None
      else Some (word_of_int (sint a smod sint b)))"

text \<open>\<^verbatim>\<open>std::abs\<close> on \<^verbatim>\<open>int\<close>, undefined at \<^verbatim>\<open>INT_MIN\<close>, whose absolute value is not an \<^verbatim>\<open>int\<close>.\<close>

definition s32_abs :: "s32 \<Rightarrow> s32 option" where
  "s32_abs b = (if b = INT_MIN then None else Some (if sint b < 0 then - b else b))"

text \<open>Signed addition and subtraction, undefined where the result overflows.\<close>

definition s32_add :: "s32 \<Rightarrow> s32 \<Rightarrow> s32 option" where
  "s32_add a b =
     (if - 2147483648 \<le> sint a + sint b \<and> sint a + sint b < 2147483648
      then Some (a + b) else None)"

definition s32_sub :: "s32 \<Rightarrow> s32 \<Rightarrow> s32 option" where
  "s32_sub a b =
     (if - 2147483648 \<le> sint a - sint b \<and> sint a - sint b < 2147483648
      then Some (a - b) else None)"

subsection \<open>emod\<close>

text \<open>
  \<^verbatim>\<open>
  s32 emod(s32 a, s32 b)
  {
    assert(b != 0);
    int r = a % b;
    return r >= 0 ? r : r + std::abs(b);
  }
  \<close>
  The result \<open>None\<close> is the failed assertion, or arithmetic that the source leaves
  undefined: \<^verbatim>\<open>INT_MIN % -1\<close>, and \<^verbatim>\<open>std::abs(INT_MIN)\<close> where it is evaluated.
\<close>

definition emod :: "s32 \<Rightarrow> s32 \<Rightarrow> s32 option" where
  "emod a b =
     (if b = 0 then None
      else case s32_rem a b of
             None \<Rightarrow> None
           | Some r \<Rightarrow>
               if 0 \<le> sint r then Some r
               else (case s32_abs b of
                       None \<Rightarrow> None
                     | Some m \<Rightarrow> s32_add r m))"

text \<open>
  The expression that maps a frame to the latest interval frame at or before it, as
  \<^verbatim>\<open>SeekThread\<close> writes it:
  \<^verbatim>\<open>
  s32 closestStateFrame =
      targetFrameNum - emod(targetFrameNum - Slippi::PLAYBACK_FIRST_SAVE, FRAME_INTERVAL);
  \<close>
  with the first frame and the interval as parameters (the constant
  \<^verbatim>\<open>Slippi::PLAYBACK_FIRST_SAVE\<close> is declared in a header outside this file). The result is
  \<open>None\<close> where \<open>emod\<close> returns no value or one of the two subtractions overflows.
\<close>

definition nearestIntervalFrame :: "s32 \<Rightarrow> s32 \<Rightarrow> s32 \<Rightarrow> s32 option" where
  "nearestIntervalFrame frame firstFrame interval =
     (case s32_sub frame firstFrame of
        None \<Rightarrow> None
      | Some d \<Rightarrow>
          (case emod d interval of
             None \<Rightarrow> None
           | Some r \<Rightarrow> s32_sub frame r))"

section \<open>The shared playback state\<close>

text \<open>
  \<^verbatim>\<open>Core::GetState\<close> and \<^verbatim>\<open>Core::SetState\<close> belong to the host emulator. The seek thread
  uses the two values \<^verbatim>\<open>CORE_PAUSE\<close> and \<^verbatim>\<open>CORE_RUN\<close>; the two others stand for every
  other state the host can be in.
\<close>

datatype EState = CORE_UNINITIALIZED | CORE_PAUSE | CORE_RUN | CORE_STOPPING

text \<open>The three threads of control, and the three condition variables of the file.\<close>

datatype thread_id = HostThread | SavestateThr | SeekThr

datatype condvar = condVar | cv_waitingForTargetFrame | cv_processingDiff

text \<open>
  The members of \<^verbatim>\<open>class SlippiPlaybackStatus\<close> that the file reads and writes.
  \<open>futureDiffs\<close> maps an interval frame to the diff its future resolves to. A
  \<^verbatim>\<open>std::thread\<close> member is represented by its \<^verbatim>\<open>joinable()\<close> flag.
\<close>

record SlippiPlaybackStatus =
  shouldJumpBack :: bool
  shouldJumpForward :: bool
  inSlippiPlayback :: bool
  shouldRunThreads :: bool
  isHardFFW :: bool
  isSoftFFW :: bool
  lastFFWFrame :: s32
  currentPlaybackFrame :: s32
  targetFrameNum :: s32
  latestFrame :: s32
  iState :: bytes
  cState :: bytes
  futureDiffs :: "s32 \<rightharpoonup> bytes"
  savestateThread_joinable :: bool
  seekThread_joinable :: bool

text \<open>
  The rest of the state the file touches: its own static \<open>numDiffsProcessing\<close>, the
  threads blocked on each condition variable, and the state of the collaborators it
  calls: the core's run state, the overclock settings of \<^verbatim>\<open>SConfig\<close>, the replay
  settings of \<^verbatim>\<open>g_replayComm\<close>, and the emulator state that \<^verbatim>\<open>State::SaveToBuffer\<close>
  reads and \<^verbatim>\<open>State::LoadFromBuffer\<close> overwrites. \<open>loadLog\<close> records every buffer passed
  to \<^verbatim>\<open>State::LoadFromBuffer\<close>, in order. \<open>diffsLaunched\<close> counts the tasks that
  \<^verbatim>\<open>std::async\<close> has created and that have not yet begun to run \<^verbatim>\<open>processDiff\<close>.
  \<open>m_OCFactor\<close> holds the float literals \<^verbatim>\<open>4.0f\<close> and \<^verbatim>\<open>1.0f\<close> as 4 and 1.
\<close>

record world = SlippiPlaybackStatus +
  numDiffsProcessing :: s32
  diffsLaunched :: nat
  blocked :: "(thread_id \<times> condvar) list"
  coreState :: EState
  m_OCEnable :: bool
  m_OCFactor :: nat
  bHideCursor :: bool
  replayCommMode :: string
  current_startFrame :: s32
  current_endFrame :: s32
  emuState :: bytes
  loadLog :: "bytes list"

subsection \<open>Collaborators\<close>

text \<open>
  Modelled from the spec: \<^verbatim>\<open>Core::SetState\<close> and \<^verbatim>\<open>Core::GetState\<close>, which are declared in
  \<^verbatim>\<open>Core/Core.h\<close> and not part of this file (the spec's pause and resume calls to the
  host). The core has a run state: \<^verbatim>\<open>SetState\<close> writes it, \<^verbatim>\<open>GetState\<close> reads it (the field
  \<open>coreState\<close>).
\<close>

definition SetState :: "EState \<Rightarrow> world \<Rightarrow> world" where
  "SetState st w = w\<lparr>coreState := st\<rparr>"

text \<open>
  Modelled from the spec: \<^verbatim>\<open>State::SaveToBuffer\<close> and \<^verbatim>\<open>State::LoadFromBuffer\<close>, which are
  declared in \<^verbatim>\<open>Core/State.h\<close> and not part of this file (the spec's
  \<^verbatim>\<open>captureFullState() -> bytes\<close> and \<^verbatim>\<open>restoreFullState(bytes)\<close>). Saving yields the bytes of
  the emulator state, loading replaces the emulator state by the buffer.
\<close>

definition SaveToBuffer :: "world \<Rightarrow> bytes" where
  "SaveToBuffer w = emuState w"

definition LoadFromBuffer :: "bytes \<Rightarrow> world \<Rightarrow> world" where
  "LoadFromBuffer buf w = w\<lparr>emuState := buf, loadLog := loadLog w @ [buf]\<rparr>"

text \<open>
  \<^verbatim>\<open>notify_one\<close> wakes one thread blocked on the condition variable, if there is one;
  \<^verbatim>\<open>wait\<close> blocks the calling thread on it.
\<close>

fun wake_one :: "condvar \<Rightarrow> (thread_id \<times> condvar) list \<Rightarrow> (thread_id \<times> condvar) list" where
  "wake_one cv [] = []"
| "wake_one cv ((t, c) # bs) = (if c = cv then bs else (t, c) # wake_one cv bs)"

definition notify_one :: "condvar \<Rightarrow> world \<Rightarrow> world" where
  "notify_one cv w = w\<lparr>blocked := wake_one cv (blocked w)\<rparr>"

definition cv_wait :: "thread_id \<Rightarrow> condvar \<Rightarrow> world \<Rightarrow> world" where
  "cv_wait t cv w = w\<lparr>blocked := blocked w @ [(t, cv)]\<rparr>"

subsection \<open>Constructor, startThreads, resetPlayback\<close>

text \<open>
  The state after \<^verbatim>\<open>SlippiPlaybackStatus::SlippiPlaybackStatus()\<close> in a process where
  nothing else has run yet; the argument is \<^verbatim>\<open>Slippi::GAME_FIRST_FRAME\<close>, declared outside
  this file. Buffers and the map start empty, no diff is in flight, no thread is blocked.
\<close>

definition new_world :: "s32 \<Rightarrow> world" where
  "new_world GAME_FIRST_FRAME =
     \<lparr>shouldJumpBack = False, shouldJumpForward = False, inSlippiPlayback = False,
      shouldRunThreads = False, isHardFFW = False, isSoftFFW = False,
      lastFFWFrame = INT_MIN, currentPlaybackFrame = INT_MIN, targetFrameNum = INT_MAX,
      latestFrame = GAME_FIRST_FRAME, iState = [], cState = [], futureDiffs = Map.empty,
      savestateThread_joinable = False, seekThread_joinable = False,
      numDiffsProcessing = 0, diffsLaunched = 0, blocked = [], coreState = CORE_RUN,
      m_OCEnable = False, m_OCFactor = 1, bHideCursor = True, replayCommMode = [],
      current_startFrame = GAME_FIRST_FRAME, current_endFrame = INT_MAX,
      emuState = [], loadLog = []\<rparr>"

definition startThreads :: "world \<Rightarrow> world" where
  "startThreads w =
     w\<lparr>shouldRunThreads := True, savestateThread_joinable := True, seekThread_joinable := True\<rparr>"

text \<open>
  \<^verbatim>\<open>
  void SlippiPlaybackStatus::resetPlayback()
  {
    if (shouldRunThreads)
    {
      shouldRunThreads = false;
      if (m_savestateThread.joinable()) m_savestateThread.detach();
      if (m_seekThread.joinable()) m_seekThread.detach();
      condVar.notify_one(); // Will allow thread to kill itself
      futureDiffs.clear();
      futureDiffs.rehash(0);
    }
    shouldJumpBack = false;
    shouldJumpForward = false;
    isHardFFW = false;
    isSoftFFW = false;
    targetFrameNum = INT_MAX;
    inSlippiPlayback = false;
  }
  \<close>
\<close>

definition resetPlayback :: "world \<Rightarrow> world" where
  "resetPlayback w =
     (let w1 = (if shouldRunThreads w
                then (notify_one condVar
                        (w\<lparr>shouldRunThreads := False,
                           savestateThread_joinable := False,
                           seekThread_joinable := False\<rparr>))
                     \<lparr>futureDiffs := Map.empty\<rparr>
                else w)
      in w1\<lparr>shouldJumpBack := False, shouldJumpForward := False,
            isHardFFW := False, isSoftFFW := False,
            targetFrameNum := INT_MAX, inSlippiPlayback := False\<rparr>)"

subsection \<open>processDiff and the frame-advance hook\<close>

text \<open>
  \<^verbatim>\<open>processDiff\<close> runs as a task of its own, created by \<^verbatim>\<open>std::async\<close>. Its effect on
  the shared state is the first two and the last two statements of its body:
  \<^verbatim>\<open>
  numDiffsProcessing += 1;
  cv_processingDiff.notify_one();
  ... encoder.Encode(...) ...
  numDiffsProcessing -= 1;
  cv_processingDiff.notify_one();
  \<close>
  The diff it returns is computed by the codec, a parameter \<open>encode\<close> of the model.
\<close>

definition processDiff_begin :: "world \<Rightarrow> world" where
  "processDiff_begin w =
     notify_one cv_processingDiff (w\<lparr>numDiffsProcessing := numDiffsProcessing w + 1\<rparr>)"

definition processDiff_end :: "world \<Rightarrow> world" where
  "processDiff_end w =
     notify_one cv_processingDiff (w\<lparr>numDiffsProcessing := numDiffsProcessing w - 1\<rparr>)"

text \<open>
  A call that can block on a condition variable either returns, or leaves its thread
  blocked in the state given.
\<close>

datatype call_result = Returned world | Blocked world

text \<open>
  \<^verbatim>\<open>
  void SlippiPlaybackStatus::prepareSlippiPlayback(s32 &frameIndex)
  {
    // block if there's too many diffs being processed
    while (shouldRunThreads && numDiffsProcessing > 3)
      cv_processingDiff.wait(processingLock);
    // Unblock thread to save a state every interval
    if (shouldRunThreads && ((currentPlaybackFrame + 122) % FRAME_INTERVAL == 0))
      condVar.notify_one();
    if (inSlippiPlayback && frameIndex >= targetFrameNum)
    {
      if (targetFrameNum < currentPlaybackFrame)
        currentPlaybackFrame = targetFrameNum;
      cv_waitingForTargetFrame.notify_one();
    }
  }
  \<close>
  When the loop condition holds the host thread waits; woken up, it tests the condition
  again, which is this function on the state it wakes up in.
\<close>

definition prepareSlippiPlayback :: "s32 \<Rightarrow> world \<Rightarrow> call_result" where
  "prepareSlippiPlayback frameIndex w =
     (if shouldRunThreads w \<and> 3 < sint (numDiffsProcessing w)
      then Blocked (cv_wait HostThread cv_processingDiff w)
      else
        let w1 = (if shouldRunThreads w \<and>
                     s32_rem (currentPlaybackFrame w + 122) FRAME_INTERVAL = Some 0
                  then notify_one condVar w else w);
            w2 = (if inSlippiPlayback w1 \<and> sint (targetFrameNum w1) \<le> sint frameIndex
                  then notify_one cv_waitingForTargetFrame
                         (if sint (targetFrameNum w1) < sint (currentPlaybackFrame w1)
                          then w1\<lparr>currentPlaybackFrame := targetFrameNum w1\<rparr>
                          else w1)
                  else w1)
        in Returned w2)"

subsection \<open>SavestateThread\<close>

text \<open>
  \<^verbatim>\<open>
  void SlippiPlaybackStatus::processInitialState(std::vector<u8> &iState)
  {
    State::SaveToBuffer(iState);
    SConfig::GetInstance().bHideCursor = false;
  };
  \<close>
\<close>

definition processInitialState :: "world \<Rightarrow> world" where
  "processInitialState w = w\<lparr>iState := SaveToBuffer w, bHideCursor := False\<rparr>"

text \<open>
  One pass of the loop of \<^verbatim>\<open>SavestateThread\<close>, from the point where its wait is over
  (threads running, \<^verbatim>\<open>(currentPlaybackFrame - PLAYBACK_FIRST_SAVE) % FRAME_INTERVAL == 0\<close>):
  \<^verbatim>\<open>
  s32 fixedFrameNumber = currentPlaybackFrame;
  if (fixedFrameNumber == INT_MAX) continue;
  bool isStartFrame = fixedFrameNumber == Slippi::PLAYBACK_FIRST_SAVE;
  bool hasStateBeenProcessed = futureDiffs.count(fixedFrameNumber) > 0;
  if (!inSlippiPlayback && isStartFrame)
  {
    processInitialState(iState);
    inSlippiPlayback = true;
  }
  else if (!hasStateBeenProcessed && !isStartFrame)
  {
    State::SaveToBuffer(cState);
    futureDiffs[fixedFrameNumber] = std::async(processDiff, iState, cState);
  }
  \<close>
\<close>

definition SavestateThread_body :: "(bytes \<Rightarrow> bytes \<Rightarrow> bytes) \<Rightarrow> s32 \<Rightarrow> world \<Rightarrow> world" where
  "SavestateThread_body encode PLAYBACK_FIRST_SAVE w =
     (let fixedFrameNumber = currentPlaybackFrame w in
      if fixedFrameNumber = INT_MAX then w
      else
        let isStartFrame = (fixedFrameNumber = PLAYBACK_FIRST_SAVE);
            hasStateBeenProcessed = (futureDiffs w fixedFrameNumber \<noteq> None)
        in if \<not> inSlippiPlayback w \<and> isStartFrame
           then (processInitialState w)\<lparr>inSlippiPlayback := True\<rparr>
           else if \<not> hasStateBeenProcessed \<and> \<not> isStartFrame
           then (let w1 = w\<lparr>cState := SaveToBuffer w\<rparr>
                 in w1\<lparr>futureDiffs :=
                          (futureDiffs w1)(fixedFrameNumber \<mapsto> encode (iState w1) (cState w1)),
                        diffsLaunched := diffsLaunched w1 + 1\<rparr>)
           else w)"

subsection \<open>SeekThread\<close>

text \<open>
  \<^verbatim>\<open>
  void SlippiPlaybackStatus::clearWatchSettingsStartEnd()
  {
    int startFrame = g_replayComm->current.startFrame;
    int endFrame = g_replayComm->current.endFrame;
    if (startFrame != Slippi::GAME_FIRST_FRAME || endFrame != INT_MAX)
    {
      if (g_playbackStatus->targetFrameNum < startFrame)
        g_replayComm->current.startFrame = g_playbackStatus->targetFrameNum;
      if (g_playbackStatus->targetFrameNum > endFrame)
        g_replayComm->current.endFrame = INT_MAX;
    }
  }
  \<close>
\<close>

definition clearWatchSettingsStartEnd :: "s32 \<Rightarrow> world \<Rightarrow> world" where
  "clearWatchSettingsStartEnd GAME_FIRST_FRAME w =
     (let startFrame = current_startFrame w;
          endFrame = current_endFrame w
      in if startFrame \<noteq> GAME_FIRST_FRAME \<or> endFrame \<noteq> INT_MAX
         then
           let w1 = (if sint (targetFrameNum w) < sint startFrame
                     then w\<lparr>current_startFrame := targetFrameNum w\<rparr> else w);
               w2 = (if sint endFrame < sint (targetFrameNum w1)
                     then w1\<lparr>current_endFrame := INT_MAX\<rparr> else w1)
           in w2
         else w)"

text \<open>
  \<^verbatim>\<open>
  bool shouldSeek = inSlippiPlayback &&
      (shouldJumpBack || shouldJumpForward || targetFrameNum != INT_MAX);
  \<close>
\<close>

definition shouldSeek :: "world \<Rightarrow> bool" where
  "shouldSeek w \<longleftrightarrow>
     inSlippiPlayback w \<and> (shouldJumpBack w \<or> shouldJumpForward w \<or> targetFrameNum w \<noteq> INT_MAX)"

text \<open>
  The body of \<^verbatim>\<open>if (shouldSeek)\<close> is given in the order of the source, one definition
  for each of its parts. First the target is resolved:
  \<^verbatim>\<open>
  u32 jumpInterval = 300; // 5 seconds;
  if (shouldJumpForward) targetFrameNum = currentPlaybackFrame + jumpInterval;
  if (shouldJumpBack) targetFrameNum = currentPlaybackFrame - jumpInterval;
  // Handle edgecases for trying to seek before start or past end of game
  if (targetFrameNum < Slippi::PLAYBACK_FIRST_SAVE) targetFrameNum = Slippi::PLAYBACK_FIRST_SAVE;
  if (targetFrameNum > latestFrame) targetFrameNum = latestFrame;
  \<close>
\<close>

definition seek_target :: "s32 \<Rightarrow> world \<Rightarrow> world" where
  "seek_target PLAYBACK_FIRST_SAVE w =
     (let jumpInterval = 300;
          w1 = (if shouldJumpForward w
                then w\<lparr>targetFrameNum := currentPlaybackFrame w + jumpInterval\<rparr> else w);
          w2 = (if shouldJumpBack w1
                then w1\<lparr>targetFrameNum := currentPlaybackFrame w1 - jumpInterval\<rparr> else w1);
          w3 = (if sint (targetFrameNum w2) < sint PLAYBACK_FIRST_SAVE
                then w2\<lparr>targetFrameNum := PLAYBACK_FIRST_SAVE\<rparr> else w2);
          w4 = (if sint (latestFrame w3) < sint (targetFrameNum w3)
                then w3\<lparr>targetFrameNum := latestFrame w3\<rparr> else w3)
      in w4)"

text \<open>
  Then a state is restored, where the seek thread finds that loading one is the shorter
  way; \<open>decode\<close> is the codec's decoder, \<open>closestStateFrame\<close> the local of that name:
  \<^verbatim>\<open>
  bool isLoadingStateOptimal =
      targetFrameNum < currentPlaybackFrame || closestStateFrame > currentPlaybackFrame;
  if (isLoadingStateOptimal)
  {
    if (closestStateFrame <= Slippi::PLAYBACK_FIRST_SAVE)
      State::LoadFromBuffer(iState);
    else
    {
      // If this diff has been processed, load it
      if (futureDiffs.count(closestStateFrame) > 0)
      {
        std::string stateString;
        decoder.Decode((char *)iState.data(), iState.size(),
                       futureDiffs[closestStateFrame].get(), &stateString);
        std::vector<u8> stateToLoad(stateString.begin(), stateString.end());
        State::LoadFromBuffer(stateToLoad);
      };
    }
  }
  \<close>
\<close>

definition isLoadingStateOptimal :: "s32 \<Rightarrow> world \<Rightarrow> bool" where
  "isLoadingStateOptimal closestStateFrame w \<longleftrightarrow>
     sint (targetFrameNum w) < sint (currentPlaybackFrame w) \<or>
     sint (currentPlaybackFrame w) < sint closestStateFrame"

definition seek_restore :: "(bytes \<Rightarrow> bytes \<Rightarrow> bytes) \<Rightarrow> s32 \<Rightarrow> s32 \<Rightarrow> world \<Rightarrow> world" where
  "seek_restore decode PLAYBACK_FIRST_SAVE closestStateFrame w =
     (if isLoadingStateOptimal closestStateFrame w
      then
        if sint closestStateFrame \<le> sint PLAYBACK_FIRST_SAVE
        then LoadFromBuffer (iState w) w
        else (case futureDiffs w closestStateFrame of
                Some diff \<Rightarrow> LoadFromBuffer (decode (iState w) diff) w
              | None \<Rightarrow> w)
      else w)"

text \<open>
  The fast-forward branch, up to its wait and after it:
  \<^verbatim>\<open>
  isHardFFW = true;
  SConfig::GetInstance().m_OCEnable = true;
  SConfig::GetInstance().m_OCFactor = 4.0f;
  Core::SetState(Core::CORE_RUN);
  cv_waitingForTargetFrame.wait(seekLock);
  Core::SetState(Core::CORE_PAUSE);
  SConfig::GetInstance().m_OCFactor = 1.0f;
  SConfig::GetInstance().m_OCEnable = false;
  isHardFFW = false;
  \<close>
\<close>

definition seek_ffw_enter :: "world \<Rightarrow> world" where
  "seek_ffw_enter w =
     cv_wait SeekThr cv_waitingForTargetFrame
       (SetState CORE_RUN (w\<lparr>isHardFFW := True, m_OCEnable := True, m_OCFactor := 4\<rparr>))"

definition seek_ffw_leave :: "world \<Rightarrow> world" where
  "seek_ffw_leave w =
     (SetState CORE_PAUSE w)\<lparr>m_OCFactor := 1, m_OCEnable := False, isHardFFW := False\<rparr>"

text \<open>
  The end of the body; \<open>paused\<close> is the local of that name:
  \<^verbatim>\<open>
  if (!paused) Core::SetState(Core::CORE_RUN);
  shouldJumpBack = false;
  shouldJumpForward = false;
  targetFrameNum = INT_MAX;
  \<close>
\<close>

definition seek_finish :: "bool \<Rightarrow> world \<Rightarrow> world" where
  "seek_finish paused w =
     (if \<not> paused then SetState CORE_RUN w else w)
       \<lparr>shouldJumpBack := False, shouldJumpForward := False, targetFrameNum := INT_MAX\<rparr>"

text \<open>
  The local \<open>closestStateFrame\<close> of the seek thread:
  \<^verbatim>\<open>
  s32 closestStateFrame =
      targetFrameNum - emod(targetFrameNum - Slippi::PLAYBACK_FIRST_SAVE, FRAME_INTERVAL);
  \<close>
  In the seek thread the two subtractions are the two's-complement ones of the machine,
  so that the thread has a next state whatever the frame numbers are; where the source
  defines them, the result is \<open>nearestIntervalFrame\<close> at the first save frame and
  \<open>FRAME_INTERVAL\<close> (lemma \<open>closest_state_frame_nearest\<close>).
\<close>

definition closest_state_frame :: "s32 \<Rightarrow> s32 \<Rightarrow> s32 option" where
  "closest_state_frame PLAYBACK_FIRST_SAVE targetFrame =
     (case emod (targetFrame - PLAYBACK_FIRST_SAVE) FRAME_INTERVAL of
        None \<Rightarrow> None
      | Some r \<Rightarrow> Some (targetFrame - r))"

text \<open>
  The body from its first statement to the decision whether to fast-forward: the queue
  mode's bounds, the pause, the target, \<open>closestStateFrame\<close> and the restore. The result is
  the local \<open>paused\<close>, the local \<open>closestStateFrame\<close> and the state at the decision;
  \<open>None\<close>: \<open>emod\<close> has returned no value.
  \<^verbatim>\<open>
  auto replayCommSettings = g_replayComm->getSettings();
  if (replayCommSettings.mode == "queue") clearWatchSettingsStartEnd();
  bool paused = (Core::GetState() == Core::CORE_PAUSE);
  Core::SetState(Core::CORE_PAUSE);
  ...
  s32 closestStateFrame =
      targetFrameNum - emod(targetFrameNum - Slippi::PLAYBACK_FIRST_SAVE, FRAME_INTERVAL);
  \<close>
\<close>

definition seek_prepare ::
  "(bytes \<Rightarrow> bytes \<Rightarrow> bytes) \<Rightarrow> s32 \<Rightarrow> s32 \<Rightarrow> world \<Rightarrow> (bool \<times> s32 \<times> world) option" where
  "seek_prepare decode PLAYBACK_FIRST_SAVE GAME_FIRST_FRAME w =
     (let w1 = (if replayCommMode w = ''queue''
                then clearWatchSettingsStartEnd GAME_FIRST_FRAME w else w);
          paused = (coreState w1 = CORE_PAUSE);
          w2 = SetState CORE_PAUSE w1;
          w3 = seek_target PLAYBACK_FIRST_SAVE w2
      in case closest_state_frame PLAYBACK_FIRST_SAVE (targetFrameNum w3) of
           None \<Rightarrow> None
         | Some closestStateFrame \<Rightarrow>
             Some (paused, closestStateFrame,
                   seek_restore decode PLAYBACK_FIRST_SAVE closestStateFrame w3))"

text \<open>
  Where the seek thread stands after servicing a request as far as it can without
  waiting: it has finished the body, or it is blocked in the wait of the fast-forward
  branch, holding its local \<open>paused\<close>, or the assertion has failed.
\<close>

datatype seek_result = SeekDone world | SeekWaiting bool world | SeekAbort

definition SeekThread_service ::
  "(bytes \<Rightarrow> bytes \<Rightarrow> bytes) \<Rightarrow> s32 \<Rightarrow> s32 \<Rightarrow> world \<Rightarrow> seek_result" where
  "SeekThread_service decode PLAYBACK_FIRST_SAVE GAME_FIRST_FRAME w =
     (case seek_prepare decode PLAYBACK_FIRST_SAVE GAME_FIRST_FRAME w of
        None \<Rightarrow> SeekAbort
      | Some (paused, closestStateFrame, w') \<Rightarrow>
          if targetFrameNum w' \<noteq> closestStateFrame \<and> targetFrameNum w' \<noteq> latestFrame w'
          then SeekWaiting paused (seek_ffw_enter w')
          else SeekDone (seek_finish paused w'))"

text \<open>The rest of the body, run by the seek thread when its wait returns.\<close>

definition SeekThread_resume :: "bool \<Rightarrow> world \<Rightarrow> world" where
  "SeekThread_resume paused w = seek_finish paused (seek_ffw_leave w)"

text \<open>
  One pass of the loop of \<^verbatim>\<open>SeekThread\<close>. The other threads run while the seek thread is
  blocked: \<open>others\<close> maps the state in which it blocks to the state in which its wait
  returns, or to \<open>None\<close> if nothing ever wakes it. The pass is then done, or hung in the
  wait, or it has stopped at the failed assertion.
\<close>

datatype pass_result = PassDone world | PassHung world | PassAbort

definition SeekThread_iteration ::
  "(bytes \<Rightarrow> bytes \<Rightarrow> bytes) \<Rightarrow> s32 \<Rightarrow> s32 \<Rightarrow> (world \<Rightarrow> world option) \<Rightarrow> world \<Rightarrow>
     pass_result" where
  "SeekThread_iteration decode PLAYBACK_FIRST_SAVE GAME_FIRST_FRAME others w =
     (if shouldSeek w
      then (case SeekThread_service decode PLAYBACK_FIRST_SAVE GAME_FIRST_FRAME w of
              SeekDone w' \<Rightarrow> PassDone w'
            | SeekWaiting paused w' \<Rightarrow>
                (case others w' of
                   None \<Rightarrow> PassHung w'
                 | Some w'' \<Rightarrow> PassDone (SeekThread_resume paused w''))
            | SeekAbort \<Rightarrow> PassAbort)
      else PassDone w)"

section \<open>Interleavings of the host, the savestate thread and the diff tasks\<close>

text \<open>
  Modelled from the spec: the host's call of the hook, which is outside this file (the
  hook is "called once per simulated frame by the host", and \<open>currentFrame\<close> is the frame
  the simulation has reached). The host records the frame it has reached in
  \<open>currentPlaybackFrame\<close> and calls the hook with it.
\<close>

definition host_frame :: "s32 \<Rightarrow> world \<Rightarrow> call_result" where
  "host_frame f w = prepareSlippiPlayback f (w\<lparr>currentPlaybackFrame := f\<rparr>)"

text \<open>
  The steps that change the number of diffs in flight. The host presents a frame, and
  the step exists only if the hook returns. The savestate thread runs one pass of its
  loop when its wait condition is over. A task created by \<^verbatim>\<open>std::async\<close> begins
  \<^verbatim>\<open>processDiff\<close>; a task that has begun ends. \<open>None\<close>: the step cannot be taken in this
  state.
\<close>

datatype action = HostFrame s32 | SavestatePass | DiffBegin | DiffEnd

definition act ::
  "(bytes \<Rightarrow> bytes \<Rightarrow> bytes) \<Rightarrow> s32 \<Rightarrow> action \<Rightarrow> world \<Rightarrow> world option" where
  "act encode PLAYBACK_FIRST_SAVE a w =
     (case a of
        HostFrame f \<Rightarrow>
          (case host_frame f w of
             Returned w' \<Rightarrow> Some w'
           | Blocked w' \<Rightarrow> None)
      | SavestatePass \<Rightarrow>
          if shouldRunThreads w \<and>
             s32_rem (currentPlaybackFrame w - PLAYBACK_FIRST_SAVE) FRAME_INTERVAL = Some 0
          then Some (SavestateThread_body encode PLAYBACK_FIRST_SAVE w)
          else None
      | DiffBegin \<Rightarrow>
          if 0 < diffsLaunched w
          then Some (processDiff_begin (w\<lparr>diffsLaunched := diffsLaunched w - 1\<rparr>))
          else None
      | DiffEnd \<Rightarrow>
          if 0 < sint (numDiffsProcessing w) then Some (processDiff_end w) else None)"

fun run ::
  "(bytes \<Rightarrow> bytes \<Rightarrow> bytes) \<Rightarrow> s32 \<Rightarrow> action list \<Rightarrow> world \<Rightarrow> world option" where
  "run encode first [] w = Some w"
| "run encode first (a # as) w =
     (case act encode first a w of None \<Rightarrow> None | Some w' \<Rightarrow> run encode first as w')"

section \<open>A sample codec and sample states\<close>

text \<open>
  A codec that satisfies the round-trip law: the diff is the current buffer itself.
\<close>

definition plain_encode :: "bytes \<Rightarrow> bytes \<Rightarrow> bytes" where
  "plain_encode reference current = current"

definition plain_decode :: "bytes \<Rightarrow> bytes \<Rightarrow> bytes" where
  "plain_decode reference diff = diff"

text \<open>
  A session in playback: threads started, the reference snapshot \<open>[1]\<close> taken, the
  simulation at frame 0 with state \<open>[2]\<close>, frames up to 5000 known, the savestate thread
  waiting for the next interval frame. The first frame of a game is -123 and the first
  save is at frame -122, the frame that the hook's
  \<^verbatim>\<open>(currentPlaybackFrame + 122) % FRAME_INTERVAL == 0\<close> announces to the savestate thread.
\<close>

definition playing :: world where
  "playing =
     (startThreads (new_world (- 123)))
       \<lparr>inSlippiPlayback := True, currentPlaybackFrame := 0, latestFrame := 5000,
        iState := [1], emuState := [2], blocked := [(SavestateThr, condVar)]\<rparr>"

text \<open>The same session with an absolute seek to frame 2000 requested.\<close>

definition seek_to_2000 :: world where
  "seek_to_2000 = playing\<lparr>targetFrameNum := 2000\<rparr>"

text \<open>The state in which the seek thread then blocks, fast-forwarding to frame 2000.\<close>

definition blocked_in_ffw :: world where
  "blocked_in_ffw = seek_ffw_enter (seek_to_2000\<lparr>coreState := CORE_PAUSE\<rparr>)"


text \<open>
  The session at frame 600 of a queued replay whose configured window starts at frame
  500, with a jump back requested.
\<close>

definition jump_back_in_queue :: world where
  "jump_back_in_queue =
     playing\<lparr>shouldJumpBack := True, currentPlaybackFrame := 600,
             replayCommMode := ''queue'', current_startFrame := 500\<rparr>"

text \<open>
  A state with the threads stopped in which the map holds a diff, for frame 778: the
  savestate thread, already past its test of \<open>shouldRunThreads\<close> when \<open>resetPlayback\<close> ran,
  has stored its diff after the map was cleared.
\<close>

definition stopped_with_diff :: world where
  "stopped_with_diff = (new_world (- 123))\<lparr>futureDiffs := [778 \<mapsto> [3]]\<rparr>"

text \<open>
  The host presents the \<open>n\<close> frames that follow frame \<open>f\<close>, one after the other.
\<close>

fun frames_after :: "s32 \<Rightarrow> nat \<Rightarrow> action list" where
  "frames_after f 0 = []"
| "frames_after f (Suc n) = HostFrame (f + 1) # frames_after (f + 1) n"

text \<open>
  A schedule from the start of a game: the host presents frame -123 and the first save
  frame -122, where the savestate thread takes the reference snapshot; then four times
  the host presents the next 900 frames, the savestate thread runs a pass at the
  interval frame reached and creates a diff task, and the task begins.
\<close>

definition four_diffs :: "action list" where
  "four_diffs =
     [HostFrame (- 123), HostFrame (- 122), SavestatePass] @
     frames_after (- 122) 900 @ [SavestatePass, DiffBegin] @
     frames_after 778 900 @ [SavestatePass, DiffBegin] @
     frames_after 1678 900 @ [SavestatePass, DiffBegin] @
     frames_after 2578 900 @ [SavestatePass, DiffBegin]"
section \<open>Arithmetic of the truncating remainder\<close>

lemma smod_abs_bound: "b \<noteq> 0 \<Longrightarrow> \<bar>(a::int) smod b\<bar> < \<bar>b\<bar>"
  by (simp add: signed_modulo_int_def abs_mult abs_sgn_eq)

lemma smod_cong_abs: "((a::int) smod b) mod \<bar>b\<bar> = a mod \<bar>b\<bar>"
proof -
  have eq: "a smod b = a - (a sdiv b) * b"
    by (simp add: minus_sdiv_mult_eq_smod)
  have "\<bar>b\<bar> dvd (a sdiv b) * b"
    by simp
  then have "((a sdiv b) * b) mod \<bar>b\<bar> = 0"
    by (simp only: dvd_eq_mod_eq_0)
  then have "(a - (a sdiv b) * b) mod \<bar>b\<bar> = a mod \<bar>b\<bar>"
    by (metis diff_zero mod_diff_right_eq)
  with eq show ?thesis
    by simp
qed

lemma emod_int:
  assumes "b \<noteq> 0"
  shows "(if 0 \<le> (a::int) smod b then a smod b else a smod b + \<bar>b\<bar>) = a mod \<bar>b\<bar>"
proof -
  let ?r = "a smod b"
  have bnd: "\<bar>?r\<bar> < \<bar>b\<bar>"
    using assms by (rule smod_abs_bound)
  show ?thesis
  proof (cases "0 \<le> ?r")
    case True
    then have "?r mod \<bar>b\<bar> = ?r"
      using bnd by simp
    then show ?thesis
      using True smod_cong_abs [of a b] by simp
  next
    case False
    then have "0 \<le> ?r + \<bar>b\<bar>" "?r + \<bar>b\<bar> < \<bar>b\<bar>"
      using bnd by linarith+
    then have "(?r + \<bar>b\<bar>) mod \<bar>b\<bar> = ?r + \<bar>b\<bar>"
      by (rule mod_pos_pos_trivial)
    moreover have "(?r + \<bar>b\<bar>) mod \<bar>b\<bar> = ?r mod \<bar>b\<bar>"
      by simp
    ultimately show ?thesis
      using False smod_cong_abs [of a b] by simp
  qed
qed

subsection \<open>Signed values of 32-bit words\<close>

lemma sint_s32_range: "- 2147483648 \<le> sint (x::s32) \<and> sint x < 2147483648"
  using sint_ge [of x] sint_lt [of x] by simp

lemma sint_s32_eq_self:
  "- 2147483648 \<le> k \<Longrightarrow> k < 2147483648 \<Longrightarrow> sint (word_of_int k :: s32) = k"
  by (simp add: sint_sbintrunc' signed_take_bit_int_eq_self)

lemma sint_s32_diff:
  "- 2147483648 \<le> sint (a::s32) - sint (b::s32) \<Longrightarrow> sint a - sint b < 2147483648 \<Longrightarrow>
     sint (a - b) = sint a - sint b"
  by (simp add: sint_word_diff signed_take_bit_int_eq_self)

lemma sint_s32_sum:
  "- 2147483648 \<le> sint (a::s32) + sint (b::s32) \<Longrightarrow> sint a + sint b < 2147483648 \<Longrightarrow>
     sint (a + b) = sint a + sint b"
  by (simp add: sint_word_add signed_take_bit_int_eq_self)

lemma INT_MIN_iff: "a = INT_MIN \<longleftrightarrow> sint a = - 2147483648"
proof
  assume "a = INT_MIN"
  then show "sint a = - 2147483648"
    by (simp add: INT_MIN_def)
next
  assume s: "sint a = - 2147483648"
  have "(scast a :: s32) = word_of_int (sint a)"
    by (rule scast_eq)
  then show "a = INT_MIN"
    using s by (simp add: INT_MIN_def)
qed

lemma minus_one_iff: "(b::s32) = - 1 \<longleftrightarrow> sint b = - 1"
proof
  assume "b = - 1"
  then show "sint b = - 1"
    by simp
next
  assume s: "sint b = - 1"
  have "(scast b :: s32) = word_of_int (sint b)"
    by (rule scast_eq)
  then show "b = - 1"
    using s by simp
qed

subsection \<open>The checked operations\<close>

lemma s32_rem_Some:
  assumes "b \<noteq> 0" and "\<not> (a = INT_MIN \<and> b = - 1)"
  shows "\<exists>r. s32_rem a b = Some r \<and> sint r = sint a smod sint b"
proof -
  have nz: "sint b \<noteq> 0"
    using assms(1) by (simp add: signed_eq_0_iff)
  have "\<bar>sint a smod sint b\<bar> < \<bar>sint b\<bar>"
    using nz by (rule smod_abs_bound)
  moreover have "\<bar>sint b\<bar> \<le> 2147483648"
    using sint_s32_range [of b] by linarith
  ultimately have "- 2147483648 \<le> sint a smod sint b" "sint a smod sint b < 2147483648"
    by linarith+
  then have "sint (word_of_int (sint a smod sint b) :: s32) = sint a smod sint b"
    by (rule sint_s32_eq_self)
  then show ?thesis
    using assms by (simp add: s32_rem_def)
qed

lemma s32_rem_eq_Some:
  "s32_rem a b = Some r \<Longrightarrow>
     b \<noteq> 0 \<and> \<not> (a = INT_MIN \<and> b = - 1) \<and> sint r = sint a smod sint b"
  using s32_rem_Some [of b a] by (auto simp add: s32_rem_def split: if_splits)

lemma s32_abs_eq_Some: "s32_abs b = Some m \<Longrightarrow> b \<noteq> INT_MIN \<and> sint m = \<bar>sint b\<bar>"
proof -
  assume a: "s32_abs b = Some m"
  then have b: "b \<noteq> INT_MIN"
    by (auto simp add: s32_abs_def split: if_splits)
  then have "sint b \<noteq> - 2147483648"
    by (simp add: INT_MIN_iff)
  then have "sint (if sint b < 0 then - b else b) = \<bar>sint b\<bar>"
    using sint_s32_range [of b]
    by (simp add: sint_word_minus signed_take_bit_int_eq_self)
  then show ?thesis
    using a b by (simp add: s32_abs_def)
qed

lemma s32_add_eq_Some: "s32_add a b = Some c \<Longrightarrow> c = a + b \<and> sint c = sint a + sint b"
  by (auto simp add: s32_add_def sint_s32_sum split: if_splits)

lemma s32_sub_eq_Some: "s32_sub a b = Some c \<Longrightarrow> c = a - b \<and> sint c = sint a - sint b"
  by (auto simp add: s32_sub_def sint_s32_diff split: if_splits)

text \<open>Whenever \<open>emod\<close> returns a value, it is the mathematical modulo.\<close>

lemma emod_Some_sint:
  assumes "emod a b = Some v"
  shows "sint v = sint a mod \<bar>sint b\<bar>"
proof -
  have b: "b \<noteq> 0"
    using assms by (auto simp add: emod_def split: if_splits)
  then have nz: "sint b \<noteq> 0"
    by (simp add: signed_eq_0_iff)
  obtain r where r: "s32_rem a b = Some r"
    using assms b by (auto simp add: emod_def split: option.splits)
  then have sr: "sint r = sint a smod sint b"
    using s32_rem_eq_Some by blast
  have m: "(if 0 \<le> sint r then sint r else sint r + \<bar>sint b\<bar>) = sint a mod \<bar>sint b\<bar>"
    unfolding sr using nz by (rule emod_int)
  show ?thesis
  proof (cases "0 \<le> sint r")
    case True
    then have "v = r"
      using assms b r by (simp add: emod_def)
    then show ?thesis
      using True m by simp
  next
    case False
    then obtain k where k: "s32_abs b = Some k" and v: "s32_add r k = Some v"
      using assms b r by (auto simp add: emod_def split: option.splits)
    have "sint k = \<bar>sint b\<bar>"
      using k s32_abs_eq_Some by blast
    moreover have "sint v = sint r + sint k"
      using v s32_add_eq_Some by blast
    ultimately show ?thesis
      using False m by simp
  qed
qed

text \<open>Where \<open>emod\<close> returns a value, and where it does not.\<close>

lemma emod_defined:
  assumes b: "b \<noteq> 0"
    and q: "\<not> (a = INT_MIN \<and> b = - 1)"
    and m: "b = INT_MIN \<longrightarrow> 0 \<le> sint a \<or> a = INT_MIN"
  shows "\<exists>v. emod a b = Some v"
proof -
  have nz: "sint b \<noteq> 0"
    using b by (simp add: signed_eq_0_iff)
  obtain r where r: "s32_rem a b = Some r" and sr: "sint r = sint a smod sint b"
    using s32_rem_Some [OF b q] by blast
  have bnd: "\<bar>sint r\<bar> < \<bar>sint b\<bar>"
    unfolding sr using nz by (rule smod_abs_bound)
  show ?thesis
  proof (cases "0 \<le> sint r")
    case True
    then show ?thesis
      using b r by (simp add: emod_def)
  next
    case False
    have nm: "b \<noteq> INT_MIN"
    proof
      assume e: "b = INT_MIN"
      then have sb: "sint b = - 2147483648"
        by (simp add: INT_MIN_iff)
      from m e have "0 \<le> sint a \<or> a = INT_MIN"
        by simp
      then have "0 \<le> sint a smod sint b"
      proof
        assume "0 \<le> sint a"
        then show ?thesis
          using sb by (simp add: signed_modulo_int_def sgn_if)
      next
        assume "a = INT_MIN"
        then have "sint a = - 2147483648"
          by (simp add: INT_MIN_iff)
        then show ?thesis
          using sb by (simp add: signed_modulo_int_def)
      qed
      then show False
        using False sr by simp
    qed
    then have "sint b \<noteq> - 2147483648"
      by (simp add: INT_MIN_iff)
    then have k: "s32_abs b = Some (if sint b < 0 then - b else b)"
      and sk: "sint (if sint b < 0 then - b else b) = \<bar>sint b\<bar>"
      using nm sint_s32_range [of b]
      by (simp_all add: s32_abs_def sint_word_minus signed_take_bit_int_eq_self)
    have "- 2147483648 \<le> sint r + \<bar>sint b\<bar>" "sint r + \<bar>sint b\<bar> < 2147483648"
      using False bnd sint_s32_range [of b] sint_s32_range [of r] by linarith+
    then have "s32_add r (if sint b < 0 then - b else b) =
        Some (r + (if sint b < 0 then - b else b))"
      unfolding s32_add_def sk by simp
    then show ?thesis
      using b r False k by (simp add: emod_def)
  qed
qed

lemma emod_undefined:
  assumes "b = 0 \<or> (a = INT_MIN \<and> b = - 1) \<or> (b = INT_MIN \<and> sint a < 0 \<and> a \<noteq> INT_MIN)"
  shows "emod a b = None"
  using assms
proof (elim disjE conjE)
  assume "b = 0"
  then show ?thesis
    by (simp add: emod_def)
next
  assume "a = INT_MIN" "b = - 1"
  then show ?thesis
    by (simp add: emod_def s32_rem_def)
next
  assume bm: "b = INT_MIN" and neg: "sint a < 0" and am: "a \<noteq> INT_MIN"
  have b: "b \<noteq> 0" and b1: "b \<noteq> - 1"
    using bm by (simp_all add: INT_MIN_def)
  obtain r where r: "s32_rem a b = Some r" and sr: "sint r = sint a smod sint b"
    using s32_rem_Some [of b a] b b1 by blast
  have sb: "sint b = - 2147483648"
    using bm by (simp add: INT_MIN_iff)
  have "- 2147483648 < sint a"
    using am sint_s32_range [of a] by (simp add: INT_MIN_iff)
  then have "sint a smod sint b = sint a"
    using neg sb by (simp add: signed_modulo_int_def)
  then have "sint r < 0"
    using sr neg by simp
  then show ?thesis
    using b r bm by (simp add: emod_def s32_abs_def)
qed

lemma emod_None_iff:
  "emod a b = None \<longleftrightarrow>
     b = 0 \<or> (a = INT_MIN \<and> b = - 1) \<or> (b = INT_MIN \<and> sint a < 0 \<and> a \<noteq> INT_MIN)"
proof
  assume n: "emod a b = None"
  show "b = 0 \<or> (a = INT_MIN \<and> b = - 1) \<or> (b = INT_MIN \<and> sint a < 0 \<and> a \<noteq> INT_MIN)"
  proof (rule ccontr)
    assume c: "\<not> (b = 0 \<or> (a = INT_MIN \<and> b = - 1) \<or>
                   (b = INT_MIN \<and> sint a < 0 \<and> a \<noteq> INT_MIN))"
    then have "\<exists>v. emod a b = Some v"
      by (intro emod_defined) auto
    then show False
      using n by simp
  qed
next
  assume "b = 0 \<or> (a = INT_MIN \<and> b = - 1) \<or> (b = INT_MIN \<and> sint a < 0 \<and> a \<noteq> INT_MIN)"
  then show "emod a b = None"
    by (rule emod_undefined)
qed

lemma emod_positive:
  assumes "0 < sint b"
  shows "\<exists>v. emod a b = Some v \<and> sint v = sint a mod sint b"
proof -
  have "b \<noteq> 0" "b \<noteq> - 1" "b \<noteq> INT_MIN"
    using assms by (auto simp add: INT_MIN_def)
  then obtain v where v: "emod a b = Some v"
    using emod_defined [of b a] by auto
  then have "sint v = sint a mod \<bar>sint b\<bar>"
    by (rule emod_Some_sint)
  then show ?thesis
    using v assms by simp
qed

section \<open>The range of emod\<close>

text \<open>
  Claim C4, as the code has it: \<open>emod a b\<close> returns a value for every \<^verbatim>\<open>s32\<close> \<open>a\<close> and
  \<open>b\<close> except a zero \<open>b\<close>, where the assertion fails, and the two cases of undefined
  arithmetic, \<^verbatim>\<open>INT_MIN % -1\<close> and \<^verbatim>\<open>std::abs(INT_MIN)\<close> (reached when \<open>b\<close> is \<^verbatim>\<open>INT_MIN\<close> and \<open>a\<close>
  is negative and not \<^verbatim>\<open>INT_MIN\<close>). Whenever it returns, the value is the mathematical
  modulo of \<open>a\<close> by the absolute value of \<open>b\<close>, from 0 up to but not including \<open>\<bar>b\<bar>\<close>. For
  every positive \<open>b\<close> it returns for every \<open>a\<close>, negative ones too, a value from 0 up to
  but not including \<open>b\<close>.
\<close>

theorem emod_range:
  "(emod a b = None \<longleftrightarrow>
      b = 0 \<or> (a = INT_MIN \<and> b = - 1) \<or> (b = INT_MIN \<and> sint a < 0 \<and> a \<noteq> INT_MIN)) \<and>
   (\<forall>v. emod a b = Some v \<longrightarrow>
      0 \<le> sint v \<and> sint v < \<bar>sint b\<bar> \<and> sint v = sint a mod \<bar>sint b\<bar>) \<and>
   (0 < sint b \<longrightarrow> (\<exists>v. emod a b = Some v \<and> 0 \<le> sint v \<and> sint v < sint b))"
proof (intro conjI allI impI)
  show "emod a b = None \<longleftrightarrow>
      b = 0 \<or> (a = INT_MIN \<and> b = - 1) \<or> (b = INT_MIN \<and> sint a < 0 \<and> a \<noteq> INT_MIN)"
    by (rule emod_None_iff)
next
  fix v
  assume v: "emod a b = Some v"
  then have "b \<noteq> 0"
    by (auto simp add: emod_def split: if_splits)
  then have nz: "0 < \<bar>sint b\<bar>"
    by (simp add: signed_eq_0_iff)
  have s: "sint v = sint a mod \<bar>sint b\<bar>"
    using v by (rule emod_Some_sint)
  show "0 \<le> sint v" "sint v < \<bar>sint b\<bar>" "sint v = sint a mod \<bar>sint b\<bar>"
    using s nz by simp_all
next
  assume p: "0 < sint b"
  then obtain v where "emod a b = Some v" "sint v = sint a mod sint b"
    using emod_positive by blast
  then show "\<exists>v. emod a b = Some v \<and> 0 \<le> sint v \<and> sint v < sint b"
    using p by simp
qed

lemmas emod_eval = emod_def s32_rem_def s32_abs_def s32_add_def s32_sub_def INT_MIN_def
  signed_modulo_int_def

text \<open>The theorem at \<open>a = -5\<close>, \<open>b = 900\<close>, where the value is 895.\<close>

theorem emod_range_witness:
  "0 < sint (900::s32) \<and> emod (- 5) 900 = Some 895 \<and>
   0 \<le> sint (895::s32) \<and> sint (895::s32) < \<bar>sint (900::s32)\<bar> \<and>
   sint (895::s32) = sint (- 5 :: s32) mod \<bar>sint (900::s32)\<bar> \<and>
   sint (895::s32) < sint (900::s32)"
proof -
  have h: "emod (- 5) 900 = Some 895"
    by (simp add: emod_eval)
  have p: "0 < sint (900::s32)"
    by simp
  note a = emod_range [of "- 5" 900, THEN conjunct2, THEN conjunct1, rule_format, OF h]
  note b = emod_range [of "- 5" 900, THEN conjunct2, THEN conjunct2, rule_format, OF p]
  from a b h p show ?thesis
    by simp
qed

text \<open>
  Claim C4 as stated fails for a negative divisor: \<open>emod 5 (-3)\<close> is 2, which is not
  below \<open>-3\<close>.
\<close>

theorem emod_negative_divisor_counterexample:
  "emod 5 (- 3) = Some 2 \<and> \<not> sint (2::s32) < sint (- 3 :: s32)"
  by (simp add: emod_eval)

section \<open>The nearest interval frame\<close>

lemma nearestIntervalFrame_eq_Some:
  "nearestIntervalFrame f first interval = Some k \<longleftrightarrow>
     (\<exists>d r. s32_sub f first = Some d \<and> emod d interval = Some r \<and> s32_sub f r = Some k)"
  by (auto simp add: nearestIntervalFrame_def split: option.splits)

text \<open>
  At or after the first frame, and no further from it than an \<^verbatim>\<open>s32\<close> can hold, the
  nearest interval frame is defined.
\<close>

lemma nearestIntervalFrame_defined:
  assumes pos: "0 < sint interval"
    and ge: "sint first \<le> sint f"
    and hi: "sint f - sint first < 2147483648"
  shows "\<exists>k. nearestIntervalFrame f first interval = Some k"
proof -
  have d: "s32_sub f first = Some (f - first)" and sd: "sint (f - first) = sint f - sint first"
    using ge hi by (simp_all add: s32_sub_def sint_s32_diff)
  obtain r where r: "emod (f - first) interval = Some r"
      and sr: "sint r = sint (f - first) mod sint interval"
    using emod_positive [OF pos] by blast
  have "0 \<le> sint r" "sint r \<le> sint f - sint first"
    using sr sd pos ge by (simp_all add: zmod_le_nonneg_dividend)
  then have "s32_sub f r = Some (f - r)"
    using ge hi sint_s32_range [of f] sint_s32_range [of first] by (simp add: s32_sub_def)
  then show ?thesis
    using d r by (auto simp add: nearestIntervalFrame_eq_Some)
qed

text \<open>
  Claim C9: for every frame \<open>f\<close>, first frame and positive interval, the frame that
  \<open>nearestIntervalFrame\<close> returns is mapped to itself by \<open>nearestIntervalFrame\<close>, wherever
  the source defines the arithmetic: the first application returns a frame \<open>k\<close>, and the
  subtraction \<open>k - first\<close> of the second does not overflow. With a first frame that is
  not positive, as the first save frame is, the second application is defined whenever
  the first is.
\<close>

theorem nearestIntervalFrame_idempotent:
  assumes pos: "0 < sint interval"
    and app: "nearestIntervalFrame f first interval = Some k"
  shows "(s32_sub k first \<noteq> None \<longrightarrow> nearestIntervalFrame k first interval = Some k) \<and>
         (sint first \<le> 0 \<longrightarrow> nearestIntervalFrame k first interval = Some k)"
proof -
  obtain d r where d: "s32_sub f first = Some d" and r: "emod d interval = Some r"
      and k: "s32_sub f r = Some k"
    using app by (auto simp add: nearestIntervalFrame_eq_Some)
  have sd: "sint d = sint f - sint first"
    using d s32_sub_eq_Some by blast
  have sk: "sint k = sint f - sint r"
    using k s32_sub_eq_Some by blast
  have sr: "sint r = sint d mod sint interval"
    using emod_Some_sint [OF r] pos by simp
  have rb: "0 \<le> sint r"
    using sr pos by simp
  have again: "nearestIntervalFrame k first interval = Some k" if def: "s32_sub k first \<noteq> None"
  proof -
    obtain d2 where d2: "s32_sub k first = Some d2"
      using def by auto
    then have "sint d2 = sint k - sint first"
      using s32_sub_eq_Some by blast
    then have sd2: "sint d2 = sint d - sint d mod sint interval"
      using sk sd sr by simp
    obtain r2 where r2: "emod d2 interval = Some r2"
        and sr2: "sint r2 = sint d2 mod sint interval"
      using emod_positive [OF pos] by blast
    have "(sint d - sint d mod sint interval) mod sint interval = 0"
      by (simp add: minus_mod_eq_div_mult)
    then have "sint r2 = 0"
      using sr2 sd2 by simp
    then have "r2 = 0"
      by (simp add: signed_eq_0_iff)
    moreover have "s32_sub k 0 = Some k"
      using sint_s32_range [of k] by (simp add: s32_sub_def)
    ultimately show ?thesis
      using d2 r2 by (auto simp add: nearestIntervalFrame_eq_Some)
  qed
  have "s32_sub k first \<noteq> None" if np: "sint first \<le> 0"
  proof -
    have "sint k - sint first = sint d - sint r"
      using sk sd by simp
    then have "sint k - sint first < 2147483648"
      using rb sint_s32_range [of d] by linarith
    moreover have "- 2147483648 \<le> sint k - sint first"
      using np sint_s32_range [of k] by linarith
    ultimately show ?thesis
      by (simp add: s32_sub_def)
  qed
  with again show ?thesis
    by blast
qed

text \<open>
  The theorem at frame 500, first frame -122 and interval 900, where the nearest
  interval frame is -122.
\<close>

theorem nearestIntervalFrame_idempotent_witness:
  "0 < sint (900::s32) \<and>
   nearestIntervalFrame 500 (- 122) 900 = Some (- 122) \<and>
   s32_sub (- 122) (- 122) \<noteq> None \<and>
   sint (- 122 :: s32) \<le> 0 \<and>
   nearestIntervalFrame (- 122) (- 122) 900 = Some (- 122)"
proof -
  have p: "0 < sint (900::s32)"
    by simp
  have h: "nearestIntervalFrame 500 (- 122) 900 = Some (- 122)"
    by (simp add: nearestIntervalFrame_def emod_eval)
  have s: "s32_sub (- 122) (- 122) \<noteq> None"
    by (simp add: s32_sub_def)
  have n: "sint (- 122 :: s32) \<le> 0"
    by simp
  note a = nearestIntervalFrame_idempotent [OF p h, THEN conjunct1, rule_format, OF s]
  from p h s n a show ?thesis
    by simp
qed

section \<open>Servicing a seek\<close>

lemmas sample_defs = playing_def seek_to_2000_def blocked_in_ffw_def startThreads_def new_world_def
  INT_MAX_def INT_MIN_def FRAME_INTERVAL_def

lemmas arith_defs = closest_state_frame_def emod_def s32_rem_def s32_abs_def s32_add_def
  s32_sub_def signed_modulo_int_def

lemmas seek_defs = seek_prepare_def seek_target_def seek_restore_def isLoadingStateOptimal_def
  clearWatchSettingsStartEnd_def SetState_def LoadFromBuffer_def SeekThread_service_def
  seek_ffw_enter_def seek_ffw_leave_def seek_finish_def cv_wait_def notify_one_def
  SeekThread_resume_def SeekThread_iteration_def shouldSeek_def

subsection \<open>What each part of the body leaves unchanged\<close>

text \<open>
  \<open>FRAME_INTERVAL\<close> is positive, so \<open>emod\<close> returns a value in the seek thread whatever
  the target is.
\<close>

lemma closest_state_frame_total:
  "\<exists>c. closest_state_frame first t = Some c"
proof -
  have "0 < sint FRAME_INTERVAL"
    by (simp add: FRAME_INTERVAL_def)
  then obtain r where "emod (t - first) FRAME_INTERVAL = Some r"
    using emod_positive by blast
  then show ?thesis
    by (simp add: closest_state_frame_def)
qed

text \<open>
  Where the source defines the two subtractions, the closest state frame is the nearest
  interval frame.
\<close>

lemma closest_state_frame_nearest:
  assumes "nearestIntervalFrame t first FRAME_INTERVAL = Some c"
  shows "closest_state_frame first t = Some c"
proof -
  obtain d r where d: "s32_sub t first = Some d" and r: "emod d FRAME_INTERVAL = Some r"
      and c: "s32_sub t r = Some c"
    using assms by (auto simp add: nearestIntervalFrame_eq_Some)
  have "d = t - first" "c = t - r"
    using d c s32_sub_eq_Some by blast+
  then show ?thesis
    using r by (simp add: closest_state_frame_def)
qed

lemma SetState_keeps [simp]:
  "currentPlaybackFrame (SetState st w) = currentPlaybackFrame w"
  "targetFrameNum (SetState st w) = targetFrameNum w"
  "latestFrame (SetState st w) = latestFrame w"
  "shouldJumpBack (SetState st w) = shouldJumpBack w"
  "shouldJumpForward (SetState st w) = shouldJumpForward w"
  "futureDiffs (SetState st w) = futureDiffs w"
  "loadLog (SetState st w) = loadLog w"
  "emuState (SetState st w) = emuState w"
  "iState (SetState st w) = iState w"
  "current_startFrame (SetState st w) = current_startFrame w"
  "current_endFrame (SetState st w) = current_endFrame w"
  "coreState (SetState st w) = st"
  by (simp_all add: SetState_def)

lemma clearWatch_keeps [simp]:
  "targetFrameNum (clearWatchSettingsStartEnd gff w) = targetFrameNum w"
  "latestFrame (clearWatchSettingsStartEnd gff w) = latestFrame w"
  "coreState (clearWatchSettingsStartEnd gff w) = coreState w"
  "currentPlaybackFrame (clearWatchSettingsStartEnd gff w) = currentPlaybackFrame w"
  "shouldJumpBack (clearWatchSettingsStartEnd gff w) = shouldJumpBack w"
  "shouldJumpForward (clearWatchSettingsStartEnd gff w) = shouldJumpForward w"
  "futureDiffs (clearWatchSettingsStartEnd gff w) = futureDiffs w"
  "loadLog (clearWatchSettingsStartEnd gff w) = loadLog w"
  "emuState (clearWatchSettingsStartEnd gff w) = emuState w"
  "iState (clearWatchSettingsStartEnd gff w) = iState w"
  by (simp_all add: clearWatchSettingsStartEnd_def Let_def)

lemma seek_target_keeps [simp]:
  "latestFrame (seek_target first w) = latestFrame w"
  "coreState (seek_target first w) = coreState w"
  "currentPlaybackFrame (seek_target first w) = currentPlaybackFrame w"
  "futureDiffs (seek_target first w) = futureDiffs w"
  "loadLog (seek_target first w) = loadLog w"
  "emuState (seek_target first w) = emuState w"
  "iState (seek_target first w) = iState w"
  "current_startFrame (seek_target first w) = current_startFrame w"
  "current_endFrame (seek_target first w) = current_endFrame w"
  by (simp_all add: seek_target_def Let_def)

lemma seek_restore_keeps [simp]:
  "targetFrameNum (seek_restore decode first c w) = targetFrameNum w"
  "latestFrame (seek_restore decode first c w) = latestFrame w"
  "coreState (seek_restore decode first c w) = coreState w"
  "currentPlaybackFrame (seek_restore decode first c w) = currentPlaybackFrame w"
  "current_startFrame (seek_restore decode first c w) = current_startFrame w"
  "current_endFrame (seek_restore decode first c w) = current_endFrame w"
  by (simp_all add: seek_restore_def LoadFromBuffer_def split: option.splits)

subsection \<open>The target after clamping\<close>

lemma seek_target_upper:
  "sint (targetFrameNum (seek_target first w)) \<le> sint (latestFrame w)"
  by (simp add: seek_target_def Let_def)

lemma seek_target_lower:
  "sint first \<le> sint (latestFrame w) \<Longrightarrow> sint first \<le> sint (targetFrameNum (seek_target first w))"
  by (simp add: seek_target_def Let_def)

lemma seek_target_value:
  assumes "sint first \<le> sint (latestFrame w)"
  shows "targetFrameNum (seek_target first w) =
           (let requested = (if shouldJumpBack w then currentPlaybackFrame w - 300
                             else if shouldJumpForward w then currentPlaybackFrame w + 300
                             else targetFrameNum w)
            in if sint requested < sint first then first
               else if sint (latestFrame w) < sint requested then latestFrame w
               else requested)"
  using assms by (auto simp add: seek_target_def Let_def)

lemma seek_target_beyond_latest:
  assumes "sint (latestFrame w) <
     sint (if shouldJumpBack w then currentPlaybackFrame w - 300
           else if shouldJumpForward w then currentPlaybackFrame w + 300
           else targetFrameNum w)"
  shows "targetFrameNum (seek_target first w) = latestFrame w"
  using assms by (auto simp add: seek_target_def Let_def)

lemma seek_prepare_unfold:
  "seek_prepare decode first gff w = Some (p, c, w') \<longleftrightarrow>
     p = (coreState w = CORE_PAUSE) \<and>
     closest_state_frame first
       (targetFrameNum (seek_target first (SetState CORE_PAUSE
          (if replayCommMode w = ''queue'' then clearWatchSettingsStartEnd gff w else w)))) =
       Some c \<and>
     w' = seek_restore decode first c (seek_target first (SetState CORE_PAUSE
          (if replayCommMode w = ''queue'' then clearWatchSettingsStartEnd gff w else w)))"
  by (auto simp add: seek_prepare_def Let_def split: option.splits)

lemma seek_prepare_total:
  "\<exists>p c w'. seek_prepare decode first gff w = Some (p, c, w')"
proof -
  let ?v = "seek_target first (SetState CORE_PAUSE
              (if replayCommMode w = ''queue'' then clearWatchSettingsStartEnd gff w else w))"
  obtain c where "closest_state_frame first (targetFrameNum ?v) = Some c"
    using closest_state_frame_total by blast
  then show ?thesis
    by (simp add: seek_prepare_unfold)
qed

text \<open>
  Claim C5, as the code has it: whatever seek or jump is requested, the body reaches the
  decision whether to fast-forward, no error is raised, and if the first save frame is not
  after \<open>latestFrame\<close>, then at that decision \<open>targetFrameNum\<close> lies between the first save
  frame and \<open>latestFrame\<close>, which the body has not changed. It is the requested frame
  (the current frame less 300 for a jump back, else the current frame plus 300 for a jump
  forward, else the stored target) clamped to that range: the first save frame if the
  request is below it, \<open>latestFrame\<close> if the request is above it, and the requested frame
  itself otherwise. The target is never below the first save frame; it is negative
  whenever that frame is.
\<close>

theorem seek_target_clamped:
  assumes "sint first \<le> sint (latestFrame w)"
  shows "\<exists>p c w'. seek_prepare decode first gff w = Some (p, c, w') \<and>
           latestFrame w' = latestFrame w \<and>
           sint first \<le> sint (targetFrameNum w') \<and>
           sint (targetFrameNum w') \<le> sint (latestFrame w') \<and>
           targetFrameNum w' =
             (let requested = (if shouldJumpBack w then currentPlaybackFrame w - 300
                               else if shouldJumpForward w then currentPlaybackFrame w + 300
                               else targetFrameNum w)
              in if sint requested < sint first then first
                 else if sint (latestFrame w) < sint requested then latestFrame w
                 else requested)"
proof -
  let ?w1 = "if replayCommMode w = ''queue'' then clearWatchSettingsStartEnd gff w else w"
  let ?w2 = "SetState CORE_PAUSE ?w1"
  let ?w3 = "seek_target first ?w2"
  obtain c where c: "closest_state_frame first (targetFrameNum ?w3) = Some c"
    using closest_state_frame_total by blast
  have l: "latestFrame ?w2 = latestFrame w"
    and k: "shouldJumpBack ?w2 = shouldJumpBack w" "shouldJumpForward ?w2 = shouldJumpForward w"
      "currentPlaybackFrame ?w2 = currentPlaybackFrame w" "targetFrameNum ?w2 = targetFrameNum w"
    by simp_all
  have "seek_prepare decode first gff w =
          Some (coreState w = CORE_PAUSE, c, seek_restore decode first c ?w3)"
    using c by (simp add: seek_prepare_unfold)
  moreover have "sint first \<le> sint (targetFrameNum ?w3)"
    using assms l by (intro seek_target_lower) simp
  moreover have "sint (targetFrameNum ?w3) \<le> sint (latestFrame w)"
    using seek_target_upper [of first ?w2] l by simp
  moreover have "targetFrameNum ?w3 =
      (let requested = (if shouldJumpBack w then currentPlaybackFrame w - 300
                        else if shouldJumpForward w then currentPlaybackFrame w + 300
                        else targetFrameNum w)
       in if sint requested < sint first then first
          else if sint (latestFrame w) < sint requested then latestFrame w
          else requested)"
    using seek_target_value [of first ?w2] assms unfolding l k by simp
  ultimately show ?thesis
    using l by simp
qed

text \<open>
  The theorem for a seek to frame 9000 when frames up to 5000 are known: the target is
  clamped to 5000.
\<close>

theorem seek_target_clamped_witness:
  "sint (- 122 :: s32) \<le> sint (latestFrame (playing\<lparr>targetFrameNum := 9000\<rparr>)) \<and>
   (\<exists>p c w'. seek_prepare plain_decode (- 122) (- 123) (playing\<lparr>targetFrameNum := 9000\<rparr>) =
               Some (p, c, w') \<and>
      latestFrame w' = latestFrame (playing\<lparr>targetFrameNum := 9000\<rparr>) \<and>
      sint (- 122 :: s32) \<le> sint (targetFrameNum w') \<and>
      sint (targetFrameNum w') \<le> sint (latestFrame w') \<and>
      targetFrameNum w' = 5000)"
proof -
  let ?far = "playing\<lparr>targetFrameNum := 9000\<rparr>"
  have h: "sint (- 122 :: s32) \<le> sint (latestFrame ?far)"
    by (simp add: sample_defs)
  have f: "shouldJumpBack ?far = False" "shouldJumpForward ?far = False"
    "latestFrame ?far = 5000" "targetFrameNum ?far = 9000"
    by (simp_all add: sample_defs)
  from seek_target_clamped [OF h, of plain_decode "- 123"]
  obtain p c w' where
    "seek_prepare plain_decode (- 122) (- 123) ?far = Some (p, c, w')"
    "latestFrame w' = latestFrame ?far"
    "sint (- 122 :: s32) \<le> sint (targetFrameNum w')"
    "sint (targetFrameNum w') \<le> sint (latestFrame w')"
    "targetFrameNum w' =
       (let requested = (if shouldJumpBack ?far then currentPlaybackFrame ?far - 300
                         else if shouldJumpForward ?far then currentPlaybackFrame ?far + 300
                         else targetFrameNum ?far)
        in if sint requested < sint (- 122 :: s32) then - 122
           else if sint (latestFrame ?far) < sint requested then latestFrame ?far
           else requested)"
    by blast
  moreover from this(5) have "targetFrameNum w' = 5000"
    unfolding f by simp
  ultimately show ?thesis
    using h by blast
qed

text \<open>
  Claim C5 as stated says that the target is never negative. A seek to frame -200 is
  clamped to the first save frame -122, a negative target; the reference snapshot is
  restored on the way.
\<close>

theorem seek_target_negative_counterexample:
  "sint (- 122 :: s32) \<le> sint (latestFrame (playing\<lparr>targetFrameNum := - 200\<rparr>)) \<and>
   seek_prepare plain_decode (- 122) (- 123) (playing\<lparr>targetFrameNum := - 200\<rparr>) =
     Some (False, - 122,
           playing\<lparr>coreState := CORE_PAUSE, targetFrameNum := - 122,
                   emuState := [1], loadLog := [[1]]\<rparr>) \<and>
   sint (targetFrameNum
           (playing\<lparr>coreState := CORE_PAUSE, targetFrameNum := - 122,
                    emuState := [1], loadLog := [[1]]\<rparr>)) < 0"
  by (simp add: sample_defs arith_defs seek_defs Let_def)

subsection \<open>Restoring when the diff is absent\<close>

text \<open>
  Every case of the restore: what \<^verbatim>\<open>State::LoadFromBuffer\<close> has been called with when the
  decision is reached.
\<close>

lemma seek_prepare_loads:
  assumes "seek_prepare decode first gff w = Some (paused, c, w')"
  shows "loadLog w' = loadLog w @
           (if isLoadingStateOptimal c w'
            then if sint c \<le> sint first then [iState w]
                 else (case futureDiffs w c of
                         Some diff \<Rightarrow> [decode (iState w) diff]
                       | None \<Rightarrow> [])
            else [])"
proof -
  let ?v = "seek_target first (SetState CORE_PAUSE
              (if replayCommMode w = ''queue'' then clearWatchSettingsStartEnd gff w else w))"
  have w': "w' = seek_restore decode first c ?v"
    using assms by (simp add: seek_prepare_unfold)
  have keep: "futureDiffs ?v = futureDiffs w" "loadLog ?v = loadLog w" "iState ?v = iState w"
    by simp_all
  have opt: "isLoadingStateOptimal c w' = isLoadingStateOptimal c ?v"
    unfolding w' by (simp add: isLoadingStateOptimal_def)
  show ?thesis
    unfolding opt unfolding w'
    using keep by (simp add: seek_restore_def LoadFromBuffer_def split: option.splits)
qed

lemma prep_2000:
  "seek_prepare plain_decode (- 122) (- 123) seek_to_2000 =
     Some (False, 1678, seek_to_2000\<lparr>coreState := CORE_PAUSE\<rparr>)"
  by (simp add: sample_defs arith_defs seek_defs Let_def)

lemma seek_ffw_enter_keeps [simp]:
  "loadLog (seek_ffw_enter w) = loadLog w"
  "emuState (seek_ffw_enter w) = emuState w"
  by (simp_all add: seek_ffw_enter_def cv_wait_def SetState_def)

lemma seek_finish_keeps [simp]:
  "loadLog (seek_finish paused w) = loadLog w"
  "emuState (seek_finish paused w) = emuState w"
  by (simp_all add: seek_finish_def SetState_def)

text \<open>
  Claim C1, as the code has it: when the closest state frame is ahead of the current
  frame and beyond the first save frame, and \<open>futureDiffs\<close> has no entry for it, loading
  a state is found optimal and yet no state is restored: \<^verbatim>\<open>State::LoadFromBuffer\<close> is not
  called and the emulator state is the one the seek began in. If the target differs from
  the closest state frame and from \<open>latestFrame\<close>, the seek thread then enters the
  fast-forward, which proceeds from that state, with nothing loaded. If the target is
  the closest state frame or \<open>latestFrame\<close>, there is no fast-forward: the seek finishes
  with nothing loaded and the emulator state unchanged.
\<close>

theorem absent_diff_restores_nothing:
  assumes prep: "seek_prepare decode first gff w = Some (paused, c, w')"
    and ahead: "sint (currentPlaybackFrame w) < sint c"
    and beyond: "sint first < sint c"
    and absent: "futureDiffs w c = None"
  shows "isLoadingStateOptimal c w' \<and> loadLog w' = loadLog w \<and> emuState w' = emuState w \<and>
         (targetFrameNum w' \<noteq> c \<and> targetFrameNum w' \<noteq> latestFrame w' \<longrightarrow>
            SeekThread_service decode first gff w = SeekWaiting paused (seek_ffw_enter w') \<and>
            loadLog (seek_ffw_enter w') = loadLog w \<and>
            emuState (seek_ffw_enter w') = emuState w) \<and>
         (targetFrameNum w' = c \<or> targetFrameNum w' = latestFrame w' \<longrightarrow>
            SeekThread_service decode first gff w = SeekDone (seek_finish paused w') \<and>
            loadLog (seek_finish paused w') = loadLog w \<and>
            emuState (seek_finish paused w') = emuState w)"
proof -
  let ?v = "seek_target first (SetState CORE_PAUSE
              (if replayCommMode w = ''queue'' then clearWatchSettingsStartEnd gff w else w))"
  have w': "w' = seek_restore decode first c ?v"
    using prep by (simp add: seek_prepare_unfold)
  have cur: "currentPlaybackFrame ?v = currentPlaybackFrame w"
    and fd: "futureDiffs ?v = futureDiffs w"
    and ll: "loadLog ?v = loadLog w"
    and es: "emuState ?v = emuState w"
    by simp_all
  have "seek_restore decode first c ?v = ?v"
    using beyond absent fd by (simp add: seek_restore_def)
  then have eq: "w' = ?v"
    using w' by simp
  have "isLoadingStateOptimal c ?v"
    using ahead cur by (simp add: isLoadingStateOptimal_def)
  then have base: "isLoadingStateOptimal c w'" "loadLog w' = loadLog w" "emuState w' = emuState w"
    using eq ll es by simp_all
  have ffw: "SeekThread_service decode first gff w = SeekWaiting paused (seek_ffw_enter w')"
    if "targetFrameNum w' \<noteq> c \<and> targetFrameNum w' \<noteq> latestFrame w'"
    using that prep by (simp add: SeekThread_service_def)
  have fin: "SeekThread_service decode first gff w = SeekDone (seek_finish paused w')"
    if "targetFrameNum w' = c \<or> targetFrameNum w' = latestFrame w'"
    using that prep by (auto simp add: SeekThread_service_def)
  show ?thesis
    using base ffw fin by simp
qed

text \<open>
  The theorem for the seek from frame 0 to frame 2000, with no diff for frame 1678: the
  seek thread fast-forwards from the state the seek began in.
\<close>

theorem absent_diff_restores_nothing_witness:
  "seek_prepare plain_decode (- 122) (- 123) seek_to_2000 =
     Some (False, 1678, seek_to_2000\<lparr>coreState := CORE_PAUSE\<rparr>) \<and>
   sint (currentPlaybackFrame seek_to_2000) < sint (1678 :: s32) \<and>
   sint (- 122 :: s32) < sint (1678 :: s32) \<and>
   futureDiffs seek_to_2000 1678 = None \<and>
   isLoadingStateOptimal 1678 (seek_to_2000\<lparr>coreState := CORE_PAUSE\<rparr>) \<and>
   loadLog (seek_to_2000\<lparr>coreState := CORE_PAUSE\<rparr>) = loadLog seek_to_2000 \<and>
   emuState (seek_to_2000\<lparr>coreState := CORE_PAUSE\<rparr>) = emuState seek_to_2000 \<and>
   targetFrameNum (seek_to_2000\<lparr>coreState := CORE_PAUSE\<rparr>) \<noteq> 1678 \<and>
   targetFrameNum (seek_to_2000\<lparr>coreState := CORE_PAUSE\<rparr>) \<noteq>
     latestFrame (seek_to_2000\<lparr>coreState := CORE_PAUSE\<rparr>) \<and>
   SeekThread_service plain_decode (- 122) (- 123) seek_to_2000 =
     SeekWaiting False (seek_ffw_enter (seek_to_2000\<lparr>coreState := CORE_PAUSE\<rparr>)) \<and>
   loadLog (seek_ffw_enter (seek_to_2000\<lparr>coreState := CORE_PAUSE\<rparr>)) = loadLog seek_to_2000 \<and>
   emuState (seek_ffw_enter (seek_to_2000\<lparr>coreState := CORE_PAUSE\<rparr>)) = emuState seek_to_2000"
proof -
  have h1: "seek_prepare plain_decode (- 122) (- 123) seek_to_2000 =
     Some (False, 1678, seek_to_2000\<lparr>coreState := CORE_PAUSE\<rparr>)"
    by (rule prep_2000)
  have h2: "sint (currentPlaybackFrame seek_to_2000) < sint (1678 :: s32)"
    by (simp add: sample_defs)
  have h3: "sint (- 122 :: s32) < sint (1678 :: s32)"
    by simp
  have h4: "futureDiffs seek_to_2000 1678 = None"
    by (simp add: sample_defs)
  have h5: "targetFrameNum (seek_to_2000\<lparr>coreState := CORE_PAUSE\<rparr>) \<noteq> 1678 \<and>
      targetFrameNum (seek_to_2000\<lparr>coreState := CORE_PAUSE\<rparr>) \<noteq>
        latestFrame (seek_to_2000\<lparr>coreState := CORE_PAUSE\<rparr>)"
    by (simp add: sample_defs)
  note a = absent_diff_restores_nothing [OF h1 h2 h3 h4]
  note b = a [THEN conjunct2, THEN conjunct2, THEN conjunct2, THEN conjunct1, rule_format, OF h5]
  from a b h1 h2 h3 h4 h5 show ?thesis
    by blast
qed

text \<open>
  The other case, for a seek from frame 0 to frame 5000, the last frame known: the closest
  state frame is 4378 and has no diff, the target is \<open>latestFrame\<close>, and the seek finishes
  with nothing loaded and without fast-forwarding.
\<close>

lemma absent_diff_no_fast_forward:
  "seek_prepare plain_decode (- 122) (- 123) (playing\<lparr>targetFrameNum := 5000\<rparr>) =
     Some (False, 4378, playing\<lparr>coreState := CORE_PAUSE, targetFrameNum := 5000\<rparr>) \<and>
   futureDiffs (playing\<lparr>targetFrameNum := 5000\<rparr>) 4378 = None \<and>
   SeekThread_service plain_decode (- 122) (- 123) (playing\<lparr>targetFrameNum := 5000\<rparr>) =
     SeekDone (seek_finish False (playing\<lparr>coreState := CORE_PAUSE, targetFrameNum := 5000\<rparr>)) \<and>
   loadLog (seek_finish False (playing\<lparr>coreState := CORE_PAUSE, targetFrameNum := 5000\<rparr>)) = []"
  by (simp add: sample_defs arith_defs seek_defs Let_def)

text \<open>
  Claim C1 as stated says that the reference snapshot is restored then. In the seek from
  frame 0 to frame 2000 loading a state is found optimal, the closest state frame 1678 is
  beyond the first save frame and has no diff; at the decision nothing has been loaded
  and the emulator state is not the reference snapshot.
\<close>

theorem absent_diff_counterexample:
  "seek_prepare plain_decode (- 122) (- 123) seek_to_2000 =
     Some (False, 1678, seek_to_2000\<lparr>coreState := CORE_PAUSE\<rparr>) \<and>
   isLoadingStateOptimal 1678 (seek_to_2000\<lparr>coreState := CORE_PAUSE\<rparr>) \<and>
   sint (- 122 :: s32) < sint (1678 :: s32) \<and>
   futureDiffs seek_to_2000 1678 = None \<and>
   loadLog (seek_to_2000\<lparr>coreState := CORE_PAUSE\<rparr>) = [] \<and>
   emuState (seek_to_2000\<lparr>coreState := CORE_PAUSE\<rparr>) \<noteq> iState seek_to_2000"
  by (simp add: sample_defs arith_defs seek_defs Let_def)

subsection \<open>The fast-forward decision\<close>

lemma service_2000:
  "SeekThread_service plain_decode (- 122) (- 123) seek_to_2000 = SeekWaiting False blocked_in_ffw"
  unfolding SeekThread_service_def prep_2000
  by (simp add: sample_defs)

text \<open>
  Claim C7: the seek thread enters the fast-forward branch, and blocks in its wait, only
  if at the decision \<open>targetFrameNum\<close> differs from the closest state frame and from
  \<open>latestFrame\<close>. And when the frame requested (by the jump flags, else by the stored
  target) is beyond \<open>latestFrame\<close>, the target is clamped to \<open>latestFrame\<close> and the body
  finishes without fast-forwarding.
\<close>

theorem fast_forward_only_for_a_gap:
  "(SeekThread_service decode first gff w = SeekWaiting p w' \<longrightarrow>
      (\<exists>c v. seek_prepare decode first gff w = Some (p, c, v) \<and> w' = seek_ffw_enter v \<and>
             targetFrameNum v \<noteq> c \<and> targetFrameNum v \<noteq> latestFrame v)) \<and>
   (sint (latestFrame w) <
      sint (if shouldJumpBack w then currentPlaybackFrame w - 300
            else if shouldJumpForward w then currentPlaybackFrame w + 300
            else targetFrameNum w) \<longrightarrow>
      (\<exists>q c v. seek_prepare decode first gff w = Some (q, c, v) \<and>
               targetFrameNum v = latestFrame w \<and> latestFrame v = latestFrame w \<and>
               SeekThread_service decode first gff w = SeekDone (seek_finish q v)))"
proof (intro conjI impI)
  assume a: "SeekThread_service decode first gff w = SeekWaiting p w'"
  obtain q c v where prep: "seek_prepare decode first gff w = Some (q, c, v)"
    using seek_prepare_total by blast
  with a show "\<exists>c v. seek_prepare decode first gff w = Some (p, c, v) \<and> w' = seek_ffw_enter v \<and>
             targetFrameNum v \<noteq> c \<and> targetFrameNum v \<noteq> latestFrame v"
    by (auto simp add: SeekThread_service_def split: if_splits)
next
  let ?u = "SetState CORE_PAUSE
              (if replayCommMode w = ''queue'' then clearWatchSettingsStartEnd gff w else w)"
  assume a: "sint (latestFrame w) <
      sint (if shouldJumpBack w then currentPlaybackFrame w - 300
            else if shouldJumpForward w then currentPlaybackFrame w + 300
            else targetFrameNum w)"
  obtain q c v where prep: "seek_prepare decode first gff w = Some (q, c, v)"
    using seek_prepare_total by blast
  then have v: "v = seek_restore decode first c (seek_target first ?u)"
    by (simp add: seek_prepare_unfold)
  have "targetFrameNum (seek_target first ?u) = latestFrame ?u"
    by (rule seek_target_beyond_latest) (use a in \<open>auto split: if_splits\<close>)
  then have t: "targetFrameNum v = latestFrame w" and l: "latestFrame v = latestFrame w"
    using v by simp_all
  then have "SeekThread_service decode first gff w = SeekDone (seek_finish q v)"
    using prep by (simp add: SeekThread_service_def)
  with prep t l show "\<exists>q c v. seek_prepare decode first gff w = Some (q, c, v) \<and>
               targetFrameNum v = latestFrame w \<and> latestFrame v = latestFrame w \<and>
               SeekThread_service decode first gff w = SeekDone (seek_finish q v)"
    by blast
qed

text \<open>
  The theorem for the seek to frame 2000, which fast-forwards, and for a seek to frame
  9000 when frames up to 5000 are known, which does not.
\<close>

theorem fast_forward_only_for_a_gap_witness:
  "(SeekThread_service plain_decode (- 122) (- 123) seek_to_2000 = SeekWaiting False blocked_in_ffw \<and>
    (\<exists>c v. seek_prepare plain_decode (- 122) (- 123) seek_to_2000 = Some (False, c, v) \<and>
           blocked_in_ffw = seek_ffw_enter v \<and>
           targetFrameNum v \<noteq> c \<and> targetFrameNum v \<noteq> latestFrame v)) \<and>
   (sint (latestFrame (playing\<lparr>targetFrameNum := 9000\<rparr>)) < sint (9000 :: s32) \<and>
    (\<exists>q c v. seek_prepare plain_decode (- 122) (- 123) (playing\<lparr>targetFrameNum := 9000\<rparr>) =
               Some (q, c, v) \<and>
             targetFrameNum v = 5000 \<and>
             SeekThread_service plain_decode (- 122) (- 123) (playing\<lparr>targetFrameNum := 9000\<rparr>) =
               SeekDone (seek_finish q v)))"
proof -
  let ?far = "playing\<lparr>targetFrameNum := 9000\<rparr>"
  have h1: "SeekThread_service plain_decode (- 122) (- 123) seek_to_2000 =
      SeekWaiting False blocked_in_ffw"
    by (rule service_2000)
  have f: "shouldJumpBack ?far = False" "shouldJumpForward ?far = False"
    "latestFrame ?far = 5000" "targetFrameNum ?far = 9000"
    by (simp_all add: sample_defs)
  have h2: "sint (latestFrame ?far) < sint (9000 :: s32)"
    by (simp add: f)
  then have h2': "sint (latestFrame ?far) <
      sint (if shouldJumpBack ?far then currentPlaybackFrame ?far - 300
            else if shouldJumpForward ?far then currentPlaybackFrame ?far + 300
            else targetFrameNum ?far)"
    by (simp only: f if_False)
  note a = fast_forward_only_for_a_gap
             [of plain_decode "- 122" "- 123" seek_to_2000 False blocked_in_ffw,
              THEN conjunct1, rule_format, OF h1]
  note b = fast_forward_only_for_a_gap
             [of plain_decode "- 122" "- 123" ?far, THEN conjunct2, rule_format, OF h2']
  from b obtain q c v where
    "seek_prepare plain_decode (- 122) (- 123) ?far = Some (q, c, v)"
    "targetFrameNum v = latestFrame ?far"
    "SeekThread_service plain_decode (- 122) (- 123) ?far = SeekDone (seek_finish q v)"
    by blast
  then have "\<exists>q c v. seek_prepare plain_decode (- 122) (- 123) ?far = Some (q, c, v) \<and>
             targetFrameNum v = 5000 \<and>
             SeekThread_service plain_decode (- 122) (- 123) ?far = SeekDone (seek_finish q v)"
    using f(3) by auto
  with a h1 h2 show ?thesis
    by blast
qed

subsection \<open>The pause state of the core\<close>

lemma seek_prepare_coreState:
  "seek_prepare decode first gff w = Some (p, c, w') \<Longrightarrow>
     p = (coreState w = CORE_PAUSE) \<and> coreState w' = CORE_PAUSE"
  by (simp add: seek_prepare_unfold)

lemma seek_finish_coreState:
  "coreState w = CORE_PAUSE \<Longrightarrow>
     coreState (seek_finish paused w) = (if paused then CORE_PAUSE else CORE_RUN)"
  by (simp add: seek_finish_def SetState_def)

lemma seek_ffw_leave_coreState: "coreState (seek_ffw_leave w) = CORE_PAUSE"
  by (simp add: seek_ffw_leave_def SetState_def)

text \<open>
  Claim C10: a pass of the seek thread that services a seek never stops at the
  assertion. When it completes, it leaves the core paused if the core was paused when
  servicing began and running otherwise, whether or not a state was restored and whether
  or not it fast-forwarded, and whatever the other threads did while it waited. It does
  not complete only if it fast-forwards and nothing ever wakes it from the wait.
\<close>

theorem seek_keeps_pause_state:
  assumes "shouldSeek w"
  shows "SeekThread_iteration decode first gff others w \<noteq> PassAbort \<and>
         (\<forall>w'. SeekThread_iteration decode first gff others w = PassDone w' \<longrightarrow>
            coreState w' = (if coreState w = CORE_PAUSE then CORE_PAUSE else CORE_RUN)) \<and>
         (\<forall>v. SeekThread_iteration decode first gff others w = PassHung v \<longrightarrow>
            others v = None \<and>
            SeekThread_service decode first gff w = SeekWaiting (coreState w = CORE_PAUSE) v)"
proof -
  obtain p c v where prep: "seek_prepare decode first gff w = Some (p, c, v)"
    using seek_prepare_total by blast
  then have p: "p = (coreState w = CORE_PAUSE)" and v: "coreState v = CORE_PAUSE"
    using seek_prepare_coreState by blast+
  show ?thesis
  proof (cases "targetFrameNum v \<noteq> c \<and> targetFrameNum v \<noteq> latestFrame v")
    case True
    then have sv: "SeekThread_service decode first gff w = SeekWaiting p (seek_ffw_enter v)"
      using prep by (simp add: SeekThread_service_def)
    show ?thesis
    proof (cases "others (seek_ffw_enter v)")
      case None
      then have "SeekThread_iteration decode first gff others w = PassHung (seek_ffw_enter v)"
        using assms sv by (simp add: SeekThread_iteration_def)
      then show ?thesis
        using None sv p by simp
    next
      case (Some u)
      then have "SeekThread_iteration decode first gff others w =
          PassDone (SeekThread_resume p u)"
        using assms sv by (simp add: SeekThread_iteration_def)
      moreover have "coreState (SeekThread_resume p u) = (if p then CORE_PAUSE else CORE_RUN)"
        unfolding SeekThread_resume_def
        by (rule seek_finish_coreState) (rule seek_ffw_leave_coreState)
      ultimately show ?thesis
        using p by simp
    qed
  next
    case False
    then have "SeekThread_iteration decode first gff others w = PassDone (seek_finish p v)"
      using assms prep by (auto simp add: SeekThread_iteration_def SeekThread_service_def)
    moreover have "coreState (seek_finish p v) = (if p then CORE_PAUSE else CORE_RUN)"
      using v by (rule seek_finish_coreState)
    ultimately show ?thesis
      using p by simp
  qed
qed

lemma iteration_2000_running:
  "SeekThread_iteration plain_decode (- 122) (- 123)
     (Some \<circ> notify_one cv_waitingForTargetFrame) seek_to_2000 =
   PassDone (SeekThread_resume False (notify_one cv_waitingForTargetFrame blocked_in_ffw))"
proof -
  have "shouldSeek seek_to_2000"
    by (simp add: shouldSeek_def sample_defs)
  then show ?thesis
    by (simp add: SeekThread_iteration_def service_2000)
qed

lemma iteration_2000_hung:
  "SeekThread_iteration plain_decode (- 122) (- 123) Map.empty seek_to_2000 =
   PassHung blocked_in_ffw"
proof -
  have "shouldSeek seek_to_2000"
    by (simp add: shouldSeek_def sample_defs)
  then show ?thesis
    by (simp add: SeekThread_iteration_def service_2000)
qed

text \<open>
  The theorem for the seek to frame 2000 from a running core: with the hook's
  notification as what happens during the wait the pass completes and the core runs;
  with nothing to wake the seek thread the pass hangs in the wait.
\<close>

theorem seek_keeps_pause_state_witness:
  "shouldSeek seek_to_2000 \<and>
   SeekThread_iteration plain_decode (- 122) (- 123)
     (Some \<circ> notify_one cv_waitingForTargetFrame) seek_to_2000 =
     PassDone (SeekThread_resume False (notify_one cv_waitingForTargetFrame blocked_in_ffw)) \<and>
   coreState seek_to_2000 = CORE_RUN \<and>
   coreState (SeekThread_resume False (notify_one cv_waitingForTargetFrame blocked_in_ffw)) =
     CORE_RUN \<and>
   SeekThread_iteration plain_decode (- 122) (- 123) Map.empty seek_to_2000 =
     PassHung blocked_in_ffw \<and>
   SeekThread_service plain_decode (- 122) (- 123) seek_to_2000 =
     SeekWaiting (coreState seek_to_2000 = CORE_PAUSE) blocked_in_ffw"
proof -
  have h: "shouldSeek seek_to_2000"
    by (simp add: shouldSeek_def sample_defs)
  have c: "coreState seek_to_2000 = CORE_RUN"
    by (simp add: sample_defs)
  note a = seek_keeps_pause_state [OF h, of plain_decode "- 122" "- 123"
             "Some \<circ> notify_one cv_waitingForTargetFrame",
             THEN conjunct2, THEN conjunct1, rule_format, OF iteration_2000_running]
  note b = seek_keeps_pause_state [OF h, of plain_decode "- 122" "- 123" Map.empty,
             THEN conjunct2, THEN conjunct2, rule_format, OF iteration_2000_hung]
  from h a b c iteration_2000_running iteration_2000_hung show ?thesis
    by simp
qed

subsection \<open>The bounds of a queued replay\<close>

text \<open>
  In queue mode, when the bounds are not both at their defaults, they follow the target
  as stored when servicing begins: the frame requested by an absolute seek.
\<close>

lemma queue_bounds_follow_stored_target:
  assumes "replayCommMode w = ''queue''"
    and "current_startFrame w \<noteq> gff \<or> current_endFrame w \<noteq> INT_MAX"
    and "seek_prepare decode first gff w = Some (p, c, w')"
  shows "current_startFrame w' =
           (if sint (targetFrameNum w) < sint (current_startFrame w)
            then targetFrameNum w else current_startFrame w) \<and>
         current_endFrame w' =
           (if sint (current_endFrame w) < sint (targetFrameNum w)
            then INT_MAX else current_endFrame w)"
  using assms
  by (auto simp add: seek_prepare_unfold clearWatchSettingsStartEnd_def Let_def SetState_def)

text \<open>
  Claim C8 at a jump back in queue mode: at frame 600 of a replay whose window starts at
  frame 500, the jump resolves to frame 300, before the start bound, and the start bound
  is still 500 at the decision. \<open>clearWatchSettingsStartEnd\<close> has run before the jump was
  resolved, on the idle target \<open>INT_MAX\<close>.
\<close>

theorem jump_back_keeps_start_bound:
  "shouldSeek jump_back_in_queue \<and>
   replayCommMode jump_back_in_queue = ''queue'' \<and>
   seek_prepare plain_decode (- 122) (- 123) jump_back_in_queue =
     Some (False, - 122,
           jump_back_in_queue\<lparr>coreState := CORE_PAUSE, targetFrameNum := 300,
                               emuState := [1], loadLog := [[1]]\<rparr>) \<and>
   sint (300 :: s32) < sint (current_startFrame jump_back_in_queue) \<and>
   current_startFrame
     (jump_back_in_queue\<lparr>coreState := CORE_PAUSE, targetFrameNum := 300,
                          emuState := [1], loadLog := [[1]]\<rparr>) = 500"
  by (simp add: jump_back_in_queue_def sample_defs arith_defs seek_defs Let_def)

section \<open>resetPlayback\<close>

lemma wake_one_keeps_others:
  "c \<noteq> cv \<Longrightarrow> (t, c) \<in> set bs \<Longrightarrow> (t, c) \<in> set (wake_one cv bs)"
  by (induction cv bs rule: wake_one.induct) auto

lemma resetPlayback_keeps_seek_thread_blocked:
  "(SeekThr, cv_waitingForTargetFrame) \<in> set (blocked w) \<Longrightarrow>
     (SeekThr, cv_waitingForTargetFrame) \<in> set (blocked (resetPlayback w))"
  by (simp add: resetPlayback_def notify_one_def Let_def wake_one_keeps_others)

text \<open>
  Claim C3 at a reset during a fast-forward: the seek thread is blocked in the wait of
  the fast-forward branch, the savestate thread in its own wait. \<open>resetPlayback\<close> stops
  the threads and notifies \<open>condVar\<close>, which wakes the savestate thread; the seek thread
  is still blocked on \<open>cv_waitingForTargetFrame\<close> afterwards, and the hook, called at the
  target frame, no longer notifies it, since \<open>inSlippiPlayback\<close> is now false.
\<close>

theorem reset_leaves_seek_thread_blocked:
  "SeekThread_service plain_decode (- 122) (- 123) seek_to_2000 = SeekWaiting False blocked_in_ffw \<and>
   shouldRunThreads blocked_in_ffw \<and>
   blocked blocked_in_ffw = [(SavestateThr, condVar), (SeekThr, cv_waitingForTargetFrame)] \<and>
   \<not> shouldRunThreads (resetPlayback blocked_in_ffw) \<and>
   blocked (resetPlayback blocked_in_ffw) = [(SeekThr, cv_waitingForTargetFrame)] \<and>
   prepareSlippiPlayback 2000 (resetPlayback blocked_in_ffw) =
     Returned (resetPlayback blocked_in_ffw)"
  by (simp add: sample_defs arith_defs seek_defs resetPlayback_def prepareSlippiPlayback_def Let_def)

text \<open>
  Claim C6, as the code has it: whatever the state, \<open>resetPlayback\<close> leaves the threads
  stopped, the jump and fast-forward flags and \<open>inSlippiPlayback\<close> false and the target at
  \<open>INT_MAX\<close>; it empties \<open>futureDiffs\<close> if the threads were running and leaves it as it is
  otherwise; it leaves the buffers \<open>iState\<close> and \<open>cState\<close> as they are; and a second call
  changes nothing.
\<close>

theorem resetPlayback_effect:
  "\<not> shouldRunThreads (resetPlayback w) \<and>
   \<not> shouldJumpBack (resetPlayback w) \<and>
   \<not> shouldJumpForward (resetPlayback w) \<and>
   \<not> isHardFFW (resetPlayback w) \<and>
   \<not> isSoftFFW (resetPlayback w) \<and>
   \<not> inSlippiPlayback (resetPlayback w) \<and>
   targetFrameNum (resetPlayback w) = INT_MAX \<and>
   (shouldRunThreads w \<longrightarrow> futureDiffs (resetPlayback w) = Map.empty) \<and>
   (\<not> shouldRunThreads w \<longrightarrow> futureDiffs (resetPlayback w) = futureDiffs w) \<and>
   iState (resetPlayback w) = iState w \<and>
   cState (resetPlayback w) = cState w \<and>
   resetPlayback (resetPlayback w) = resetPlayback w"
  by (simp add: resetPlayback_def notify_one_def Let_def)

text \<open>
  The theorem for a running session that holds a diff, and for a stopped one that holds
  a diff.
\<close>

theorem resetPlayback_effect_witness:
  "shouldRunThreads (playing\<lparr>futureDiffs := [778 \<mapsto> [3]]\<rparr>) \<and>
   futureDiffs (resetPlayback (playing\<lparr>futureDiffs := [778 \<mapsto> [3]]\<rparr>)) = Map.empty \<and>
   \<not> shouldRunThreads stopped_with_diff \<and>
   futureDiffs (resetPlayback stopped_with_diff) = futureDiffs stopped_with_diff \<and>
   resetPlayback (resetPlayback stopped_with_diff) = resetPlayback stopped_with_diff"
proof -
  have h1: "shouldRunThreads (playing\<lparr>futureDiffs := [778 \<mapsto> [3]]\<rparr>)"
    by (simp add: sample_defs)
  have h2: "\<not> shouldRunThreads stopped_with_diff"
    by (simp add: stopped_with_diff_def new_world_def)
  show ?thesis
    using resetPlayback_effect [of "playing\<lparr>futureDiffs := [778 \<mapsto> [3]]\<rparr>"]
      resetPlayback_effect [of stopped_with_diff] h1 h2
    by simp
qed

text \<open>
  Claim C6 as stated says that all buffers are cleared and the map emptied in every
  state. After a reset of the session in playback the reference snapshot is still \<open>[1]\<close>;
  after a reset with the threads stopped the map still holds the diff for frame 778.
\<close>

theorem resetPlayback_keeps_buffers_counterexample:
  "iState (resetPlayback playing) = [1] \<and>
   \<not> shouldRunThreads stopped_with_diff \<and>
   futureDiffs (resetPlayback stopped_with_diff) 778 = Some [3]"
  by (simp add: resetPlayback_def notify_one_def Let_def sample_defs stopped_with_diff_def)

section \<open>Backpressure\<close>

lemmas run_defs = act_def host_frame_def prepareSlippiPlayback_def SavestateThread_body_def
  processInitialState_def SaveToBuffer_def processDiff_begin_def processDiff_end_def
  notify_one_def cv_wait_def

lemma run_append:
  "run encode first (as @ bs) w =
     (case run encode first as w of None \<Rightarrow> None | Some w' \<Rightarrow> run encode first bs w')"
  by (induction as arbitrary: w) (simp_all split: option.splits)

text \<open>
  While no seek is requested, nobody waits and at most three diffs are in flight, the
  hook returns and the frame presented is all that changes.
\<close>

lemma host_frame_quiet:
  assumes "blocked w = []"
    and "targetFrameNum w = INT_MAX"
    and "sint f < 2147483647"
    and "sint (numDiffsProcessing w) \<le> 3"
  shows "act encode first (HostFrame f) w = Some (w\<lparr>currentPlaybackFrame := f\<rparr>)"
  using assms
  by (simp add: act_def host_frame_def prepareSlippiPlayback_def notify_one_def INT_MAX_def Let_def)

lemma sint_s32_succ: "sint (f::s32) < 2147483647 \<Longrightarrow> sint (f + 1) = sint f + 1"
  using sint_ge [of f]
  by (simp add: sint_word_add signed_take_bit_int_eq_self)

lemma run_frames_after:
  assumes "blocked w = []"
    and "targetFrameNum w = INT_MAX"
    and "sint f + int n < 2147483647"
    and "sint (numDiffsProcessing w) \<le> 3"
    and "0 < n"
  shows "run encode first (frames_after f n) w = Some (w\<lparr>currentPlaybackFrame := f + of_nat n\<rparr>)"
  using assms
proof (induction n arbitrary: f w)
  case 0
  then show ?case
    by simp
next
  case (Suc n)
  have f1: "sint (f + 1) = sint f + 1"
    using Suc.prems(3) by (intro sint_s32_succ) linarith
  have step: "act encode first (HostFrame (f + 1)) w = Some (w\<lparr>currentPlaybackFrame := f + 1\<rparr>)"
    using Suc.prems f1 by (intro host_frame_quiet) simp_all
  show ?case
  proof (cases n)
    case 0
    then show ?thesis
      using step by simp
  next
    case (Suc m)
    have "run encode first (frames_after (f + 1) n) (w\<lparr>currentPlaybackFrame := f + 1\<rparr>) =
        Some (w\<lparr>currentPlaybackFrame := f + 1\<rparr>\<lparr>currentPlaybackFrame := f + 1 + of_nat n\<rparr>)"
      using Suc.prems f1 Suc by (intro Suc.IH) simp_all
    then show ?thesis
      using step by (simp add: add.assoc add.commute)
  qed
qed

text \<open>
  Claim C2, as the code has it: the bound is applied to the host. The hook returns, and
  the host goes on to the next frame, only if the threads are stopped or at most three
  diffs are in flight; with the threads running and more than three in flight it blocks
  on \<open>cv_processingDiff\<close>. A diff task that has been created begins whatever the count,
  and adds one to it.
\<close>

theorem backpressure_at_hook:
  "(act encode first (HostFrame f) w = Some w' \<longrightarrow>
      \<not> shouldRunThreads w \<or> sint (numDiffsProcessing w) \<le> 3) \<and>
   (shouldRunThreads w \<and> 3 < sint (numDiffsProcessing w) \<longrightarrow>
      prepareSlippiPlayback f w = Blocked (cv_wait HostThread cv_processingDiff w)) \<and>
   (0 < diffsLaunched w \<longrightarrow>
      (\<exists>v. act encode first DiffBegin w = Some v \<and>
           numDiffsProcessing v = numDiffsProcessing w + 1))"
  by (auto simp add: act_def host_frame_def prepareSlippiPlayback_def processDiff_begin_def
      notify_one_def split: call_result.splits if_splits)

text \<open>
  The theorem for a session just started: the host presents the first frame, the hook
  blocks once four diffs are in flight, and a created task begins.
\<close>

theorem backpressure_at_hook_witness:
  "(act plain_encode (- 122) (HostFrame (- 123)) (startThreads (new_world (- 123))) =
      Some ((startThreads (new_world (- 123)))\<lparr>currentPlaybackFrame := - 123\<rparr>) \<and>
    shouldRunThreads (startThreads (new_world (- 123))) \<and>
    sint (numDiffsProcessing (startThreads (new_world (- 123)))) \<le> 3) \<and>
   (shouldRunThreads ((startThreads (new_world (- 123)))\<lparr>numDiffsProcessing := 4\<rparr>) \<and>
    3 < sint (numDiffsProcessing ((startThreads (new_world (- 123)))\<lparr>numDiffsProcessing := 4\<rparr>)) \<and>
    prepareSlippiPlayback 0 ((startThreads (new_world (- 123)))\<lparr>numDiffsProcessing := 4\<rparr>) =
      Blocked (cv_wait HostThread cv_processingDiff
                 ((startThreads (new_world (- 123)))\<lparr>numDiffsProcessing := 4\<rparr>))) \<and>
   (0 < diffsLaunched ((startThreads (new_world (- 123)))\<lparr>diffsLaunched := 1\<rparr>) \<and>
    (\<exists>v. act plain_encode (- 122) DiffBegin
            ((startThreads (new_world (- 123)))\<lparr>diffsLaunched := 1\<rparr>) = Some v \<and>
         numDiffsProcessing v =
           numDiffsProcessing ((startThreads (new_world (- 123)))\<lparr>diffsLaunched := 1\<rparr>) + 1))"
proof -
  let ?w = "startThreads (new_world (- 123))"
  have h1: "act plain_encode (- 122) (HostFrame (- 123)) ?w =
      Some (?w\<lparr>currentPlaybackFrame := - 123\<rparr>)"
    by (simp add: run_defs startThreads_def new_world_def INT_MAX_def INT_MIN_def
        FRAME_INTERVAL_def s32_rem_def signed_modulo_int_def Let_def)
  have h2: "shouldRunThreads (?w\<lparr>numDiffsProcessing := 4\<rparr>) \<and>
      3 < sint (numDiffsProcessing (?w\<lparr>numDiffsProcessing := 4\<rparr>))"
    by (simp add: startThreads_def)
  have h3: "0 < diffsLaunched (?w\<lparr>diffsLaunched := 1\<rparr>)"
    by simp
  note a = backpressure_at_hook [of plain_encode "- 122" "- 123" ?w
             "?w\<lparr>currentPlaybackFrame := - 123\<rparr>", THEN conjunct1, rule_format, OF h1]
  note b = backpressure_at_hook [of plain_encode "- 122" 0 "?w\<lparr>numDiffsProcessing := 4\<rparr>",
             THEN conjunct2, THEN conjunct1, rule_format, OF h2]
  note c = backpressure_at_hook [of plain_encode "- 122" 0 "?w\<lparr>diffsLaunched := 1\<rparr>",
             THEN conjunct2, THEN conjunct2, rule_format, OF h3]
  have r: "shouldRunThreads ?w"
    by (simp add: startThreads_def)
  from h1 a r h2 b h3 c show ?thesis
    by blast
qed

text \<open>
  Claim C2 as stated says that the count never exceeds three. From a session just
  started the host presents every frame from -123 to 3478, the hook returning each time
  since at most three diffs are in flight; at each of the four interval frames after
  the first save the savestate thread creates a diff task, and the task begins. Four
  diffs are then in flight, with the threads running.
\<close>

theorem four_diffs_in_flight_counterexample:
  "map_option numDiffsProcessing
     (run plain_encode (- 122) four_diffs (startThreads (new_world (- 123)))) = Some 4 \<and>
   map_option shouldRunThreads
     (run plain_encode (- 122) four_diffs (startThreads (new_world (- 123)))) = Some True"
  by (simp add: four_diffs_def run_append run_frames_after run_defs startThreads_def new_world_def
      INT_MAX_def INT_MIN_def FRAME_INTERVAL_def
      s32_rem_def signed_modulo_int_def plain_encode_def Let_def)

end
